theory Spec2Isabelle
  imports Complex_Main "HOL-Library.Word"
begin

unbundle bit_operations_syntax

section \<open>The polyline decoder of MapComponent.jsx\<close>

text \<open>
  A JavaScript string is a sequence of UTF-16 code units; \<open>charCodeAt\<close> returns the code
  unit at an index, or NaN when the index is outside the string. NaN is modelled as
  \<open>None\<close>. The literals of the polyline alphabet are ASCII, so \<open>js\<close> turns an Isabelle
  string into its code units.
\<close>

type_synonym js_string = "nat list"

definition js :: "string \<Rightarrow> js_string" where
  "js s = map of_char s"

definition charCodeAt :: "js_string \<Rightarrow> nat \<Rightarrow> int option" where
  "charCodeAt s i = (if i < length s then Some (int (s ! i)) else None)"

text \<open>
  The inner \<open>do ... while (b >= 0x20)\<close> loop. \<open>result\<close> is a 32-bit integer, because
  \<open>|=\<close> and \<open><<\<close> work on 32-bit integers and \<open><<\<close> uses its count modulo 32.
  When \<open>charCodeAt\<close> returns NaN, \<open>b\<close> is NaN: \<open>NaN & 0x1f\<close> is 0, so \<open>result\<close> is
  unchanged, and \<open>NaN >= 0x20\<close> is false, so the loop ends. The function returns
  \<open>result\<close> and the incremented \<open>index\<close>.
\<close>

function chunks :: "js_string \<Rightarrow> nat \<Rightarrow> nat \<Rightarrow> 32 word \<Rightarrow> 32 word \<times> nat" where
  "chunks encoded index shift result =
     (case charCodeAt encoded index of
        None \<Rightarrow> (result, index + 1)
      | Some c \<Rightarrow>
          (let b = c - 63;
               result' = result OR push_bit (shift mod 32) (word_of_int (b AND 31))
           in if b \<ge> 32 then chunks encoded (index + 1) (shift + 5) result'
              else (result', index + 1)))"
  by pat_completeness auto
termination
  by (relation "measure (\<lambda>(encoded, index, shift, result). length encoded - index)")
     (auto simp: charCodeAt_def split: if_splits)

declare chunks.simps [simp del]

lemma chunks_index: "index < snd (chunks encoded index shift result)"
proof (induction encoded index shift result rule: chunks.induct)
  case (1 encoded index shift result)
  show ?case
  proof (cases "charCodeAt encoded index")
    case None
    then show ?thesis by (subst chunks.simps) simp
  next
    case (Some c)
    show ?thesis
    proof (cases "32 \<le> c - 63")
      case True
      from "1.IH"[OF Some refl refl True]
      show ?thesis using Some True by (subst chunks.simps) (simp add: Let_def)
    next
      case False
      then show ?thesis using Some by (subst chunks.simps) (simp add: Let_def)
    qed
  qed
qed

lemma chunks_advances: "chunks encoded index shift result = (r, i) \<Longrightarrow> index < i"
  using chunks_index[of index encoded shift result] by simp

text \<open>
  \<open>(result & 1) ? ~(result >> 1) : (result >> 1)\<close>, where \<open>>>\<close> keeps the sign; the
  value is read as a signed 32-bit integer.
\<close>

definition unzigzag :: "32 word \<Rightarrow> int" where
  "unzigzag result =
     sint (if result AND 1 \<noteq> 0 then NOT (signed_drop_bit 1 result)
           else signed_drop_bit 1 result)"

text \<open>
  The outer \<open>while (index < len)\<close> loop. \<open>lat\<close> and \<open>lng\<close> are JavaScript numbers that
  hold integers (exact below \<open>2^53\<close>); they are modelled as unbounded integers, and the
  quotients \<open>lat / factor\<close>, \<open>lng / factor\<close> as exact real quotients.
\<close>

function decode_loop ::
  "js_string \<Rightarrow> real \<Rightarrow> nat \<Rightarrow> int \<Rightarrow> int \<Rightarrow> (real \<times> real) list \<Rightarrow> (real \<times> real) list" where
  "decode_loop encoded factor index lat lng points =
     (if index < length encoded then
        (case chunks encoded index 0 0 of (r1, i1) \<Rightarrow>
           (let lat' = lat + unzigzag r1 in
            (case chunks encoded i1 0 0 of (r2, i2) \<Rightarrow>
               (let lng' = lng + unzigzag r2 in
                decode_loop encoded factor i2 lat' lng'
                  (points @ [(real_of_int lat' / factor, real_of_int lng' / factor)])))))
      else points)"
  by pat_completeness auto
termination
  apply (relation "measure (\<lambda>(encoded, factor, index, lat, lng, points). length encoded - index)")
   apply simp
  apply (auto dest!: sym[of "(_, _)" "chunks _ _ _ _"] chunks_advances)
  done

declare decode_loop.simps [simp del]

definition decodePolyline :: "js_string \<Rightarrow> nat \<Rightarrow> (real \<times> real) list" where
  "decodePolyline encoded precision =
     (if encoded = [] then []
      else decode_loop encoded (10 ^ precision) 0 0 0 [])"

text \<open>
  Notions used to state what the decoder does on a truncated input. A group ends a value
  when its continuation bit is clear (\<open>b < 0x20\<close>). An input is well formed when it
  consists of whole coordinate pairs: it holds an even number of values, and nothing
  after the last of them. A tail is dangling when it is not empty and holds no whole
  pair.
\<close>

definition terminator :: "nat \<Rightarrow> bool" where
  "terminator c \<longleftrightarrow> int c - 63 < 32"

definition terminators :: "js_string \<Rightarrow> nat" where
  "terminators w = length (filter terminator w)"

definition well_formed :: "js_string \<Rightarrow> bool" where
  "well_formed w \<longleftrightarrow> even (terminators w) \<and> (w = [] \<or> terminator (last w))"

definition dangling :: "js_string \<Rightarrow> bool" where
  "dangling t \<longleftrightarrow> t \<noteq> [] \<and> terminators t < 2"

section \<open>The route session of Routing.jsx\<close>

subsection \<open>Data\<close>

text \<open>
  A route plan result is the JSON object of a successful response. Numbers are the
  values of JSON number literals, modelled as reals. A member that the component only
  tests for truthiness is an option, \<open>None\<close> when it is absent or null. The \<open>geometry\<close>
  member is compared with \<open>!==\<close>, which tells an absent member (\<open>undefined\<close>) from a
  null one, so its type keeps the two apart; \<open>!==\<close> on two such values is inequality of
  the datatype. Only the members that the component's logic reads or compares are
  fields; the step list is only rendered.
\<close>

datatype js_string_member = JS_undefined | JS_null | JS_string string

record latlon =
  lat :: real
  lon :: real

record endpoint = latlon +
  display :: string

record route_result =
  recommended_route :: string
  distance_km :: real
  duration_minutes :: real
  estimated_co2_kg :: real
  start_point :: "endpoint option"
  end_point :: "endpoint option"
  geometry :: js_string_member
  detailed_geometry :: "(real \<times> real) list option"
  provider_used :: "string option"

text \<open>The \<open>mockEvent\<close> object built by the simulation timer.\<close>

record sim_event = latlon +
  event_id :: nat
  event_name :: string
  severity :: string
  affected_radius :: nat

text \<open>
  The request body built by \<open>handleSubmit\<close>. Its members are \<open>source\<close>,
  \<open>destination\<close>, \<open>event\<close>, \<open>mode\<close>, \<open>provider\<close>, \<open>event_severity\<close> and
  \<open>event_location\<close>; the fields carry the prefix \<open>req_\<close> to keep them apart from the
  state variables of the same names.
\<close>

record payload =
  req_source :: string
  req_destination :: string
  req_event :: string
  req_mode :: string
  req_provider :: "string option"
  req_event_severity :: string
  req_event_location :: "latlon option"

text \<open>
  The state variables of the component, one field for each \<open>useState\<close>.
  \<open>result_ref\<close> is not a state variable: it stands for the identity of the object held
  in \<open>result\<close>, which React compares (with \<open>Object.is\<close>) when \<open>result\<close> is a dependency of
  an effect. Every response object is a new object.
\<close>

record routing =
  source :: string
  destination :: string
  event :: string
  loading :: bool
  result :: "route_result option"
  result_ref :: nat
  error :: "string option"
  isSidebarOpen :: bool
  activeStepIndex :: "nat option"
  isLiveEnabled :: bool
  lastCalculated :: "string option"
  simulatedEvent :: "sim_event option"
  showNotification :: bool
  previousResult :: "route_result option"
  isRerouting :: bool
  etaChanged :: bool
  distanceChanged :: bool
  hasSimulatedThisSession :: bool

text \<open>
  A request in flight: the body that was posted, and the value of \<open>previousResult\<close> in
  the closure of the \<open>handleSubmit\<close> that posted it (the code after the \<open>await\<close> reads
  that binding, not the state at arrival).
\<close>

record request =
  sent :: payload
  seen_previousResult :: "route_result option"

datatype response =
    Success route_result string
  | Failure "string option"

datatype flag = EtaChanged | DistanceChanged | IsRerouting

text \<open>
  The component together with what the browser holds for it: the clock (milliseconds),
  the timers and the requests in flight. A timer armed by an effect keeps the state of
  the render whose effect armed it: that is what its callback's closure sees. The
  timers of \<open>handleSubmit\<close> are never cleared, so there may be many of them.
\<close>

record sys =
  ui :: routing
  now :: nat
  debounce_timer :: "(nat \<times> routing) option"
  poll_timer :: "nat option"
  sim_timer :: "(nat \<times> routing) option"
  reset_timers :: "(nat \<times> flag) list"
  inflight :: "request list"

definition initial_routing :: routing where
  "initial_routing =
     \<lparr>source = [], destination = [], event = [], loading = False, result = None,
      result_ref = 0, error = None, isSidebarOpen = True, activeStepIndex = None,
      isLiveEnabled = False, lastCalculated = None, simulatedEvent = None,
      showNotification = False, previousResult = None, isRerouting = False,
      etaChanged = False, distanceChanged = False, hasSimulatedThisSession = False\<rparr>"

definition initial :: sys where
  "initial =
     \<lparr>ui = initial_routing, now = 0, debounce_timer = None, poll_timer = None,
      sim_timer = None, reset_timers = [], inflight = []\<rparr>"

subsection \<open>handleSubmit\<close>

text \<open>
  \<open>effectiveEvent = eventLocation || simulatedEvent\<close>, and the body built from it.
  \<open>x || y\<close> on strings takes \<open>y\<close> when \<open>x\<close> is empty.
\<close>

definition make_payload :: "routing \<Rightarrow> sim_event option \<Rightarrow> payload" where
  "make_payload c eventLocation =
     (let effectiveEvent = (case eventLocation of Some e \<Rightarrow> Some e | None \<Rightarrow> simulatedEvent c)
      in \<lparr>req_source = source c,
          req_destination = destination c,
          req_event = (case effectiveEvent of
                         Some e \<Rightarrow> (if event_name e \<noteq> [] then event_name e else ''Accident'')
                       | None \<Rightarrow> event c),
          req_mode = ''car'',
          req_provider = (case result c of
                            None \<Rightarrow> None
                          | Some r \<Rightarrow> (case provider_used r of
                                         None \<Rightarrow> None
                                       | Some p \<Rightarrow> if p \<noteq> [] then Some p else None)),
          req_event_severity = (case effectiveEvent of Some e \<Rightarrow> severity e | None \<Rightarrow> ''LOW''),
          req_event_location = (case effectiveEvent of
                                  Some e \<Rightarrow> Some \<lparr>lat = lat e, lon = lon e\<rparr>
                                | None \<Rightarrow> None)\<rparr>)"

text \<open>
  The part of \<open>handleSubmit\<close> before the \<open>await\<close>. \<open>c\<close> is the render state that the
  called closure sees; the three setters act on the component.
\<close>

definition handleSubmit_begin :: "routing \<Rightarrow> sim_event option \<Rightarrow> sys \<Rightarrow> sys" where
  "handleSubmit_begin c eventLocation s =
     s\<lparr>ui := (ui s)\<lparr>loading := True, error := None, activeStepIndex := None\<rparr>,
       inflight := inflight s @ [\<lparr>sent = make_payload c eventLocation,
                                 seen_previousResult = previousResult c\<rparr>]\<rparr>"

text \<open>
  The part after the \<open>await\<close>: the \<open>try\<close> block on a response, the \<open>catch\<close> block on a
  rejection, then \<open>finally\<close>.
\<close>

definition reroute_flags :: "route_result \<Rightarrow> route_result \<Rightarrow> sys \<Rightarrow> sys" where
  "reroute_flags p d s =
     (let s1 = s\<lparr>ui := (ui s)\<lparr>isRerouting := True\<rparr>\<rparr>;
          s2 = (if duration_minutes p \<noteq> duration_minutes d
                then s1\<lparr>ui := (ui s1)\<lparr>etaChanged := True\<rparr>,
                       reset_timers := reset_timers s1 @ [(now s + 3000, EtaChanged)]\<rparr>
                else s1);
          s3 = (if distance_km p \<noteq> distance_km d
                then s2\<lparr>ui := (ui s2)\<lparr>distanceChanged := True\<rparr>,
                       reset_timers := reset_timers s2 @ [(now s + 3000, DistanceChanged)]\<rparr>
                else s2)
      in s3\<lparr>reset_timers := reset_timers s3 @ [(now s + 3000, IsRerouting)]\<rparr>)"

text \<open>\<open>err.response?.data?.detail || 'Failed to get route suggestion'\<close>\<close>

definition error_text :: "string option \<Rightarrow> string" where
  "error_text detail =
     (case detail of
        Some m \<Rightarrow> if m \<noteq> [] then m else ''Failed to get route suggestion''
      | None \<Rightarrow> ''Failed to get route suggestion'')"

definition handleSubmit_resume :: "request \<Rightarrow> response \<Rightarrow> sys \<Rightarrow> sys" where
  "handleSubmit_resume q r s =
     (case r of
        Success d t \<Rightarrow>
          (let s1 = s\<lparr>ui := (ui s)\<lparr>result := Some d, result_ref := Suc (result_ref (ui s)),
                                   lastCalculated := Some t, isSidebarOpen := True\<rparr>\<rparr>;
               s2 = (case seen_previousResult q of
                       Some p \<Rightarrow> if geometry p \<noteq> geometry d then reroute_flags p d s1 else s1
                     | None \<Rightarrow> s1)
           in s2\<lparr>ui := (ui s2)\<lparr>previousResult := Some d, loading := False\<rparr>\<rparr>)
      | Failure detail \<Rightarrow>
          s\<lparr>ui := (ui s)\<lparr>error := Some (error_text detail), loading := False\<rparr>\<rparr>)"

subsection \<open>The delta display\<close>

text \<open>
  Under the distance of the displayed result the component prints how much it changed:
  \<open>{distanceChanged && previousResult && (... Math.abs(result.distance_km -
  previousResult.distance_km).toFixed(1) ... km)}\<close>, inside \<open>{result && (...)}\<close>; the
  duration has the same line with \<open>etaChanged\<close> and \<open>duration_minutes\<close>. The two
  functions give the number that is printed, before it is formatted, and \<open>None\<close> when
  the line is not rendered.
\<close>

definition distance_delta :: "routing \<Rightarrow> real option" where
  "distance_delta c =
     (case result c of
        None \<Rightarrow> None
      | Some r \<Rightarrow>
          (case previousResult c of
             None \<Rightarrow> None
           | Some p \<Rightarrow> if distanceChanged c then Some \<bar>distance_km r - distance_km p\<bar>
                      else None))"

definition duration_delta :: "routing \<Rightarrow> real option" where
  "duration_delta c =
     (case result c of
        None \<Rightarrow> None
      | Some r \<Rightarrow>
          (case previousResult c of
             None \<Rightarrow> None
           | Some p \<Rightarrow> if etaChanged c then Some \<bar>duration_minutes r - duration_minutes p\<bar>
                      else None))"

subsection \<open>The effects\<close>

text \<open>
  After a render React runs every effect one of whose dependencies differs from the
  previous render: first the cleanup that the effect returned last time, then the
  effect. Each function below is one \<open>useEffect\<close> of the component, in the order of
  the source. \<open>old\<close> is the state of the previous render and \<open>c\<close> the state just
  rendered, which is what the effect and the callbacks it creates see; the setters it
  calls act on the component and show in the next render.
\<close>

text \<open>The dependency arrays, in the order of the effects.\<close>

definition endpoint_deps :: "routing \<Rightarrow> string \<times> string" where
  "endpoint_deps c = (source c, destination c)"

definition poll_deps :: "routing \<Rightarrow> bool \<times> bool" where
  "poll_deps c = (isLiveEnabled c, result c \<noteq> None)"

definition simulation_deps :: "routing \<Rightarrow> nat \<times> string \<times> sim_event option \<times> bool \<times> bool" where
  "simulation_deps c =
     (result_ref c, event c, simulatedEvent c, loading c, hasSimulatedThisSession c)"

definition debounce_effect :: "routing \<Rightarrow> routing \<Rightarrow> sys \<Rightarrow> sys" where
  "debounce_effect old c s =
     (if endpoint_deps old = endpoint_deps c then s
      else if source c = [] \<or> destination c = [] then s\<lparr>debounce_timer := None\<rparr>
      else s\<lparr>ui := (ui s)\<lparr>simulatedEvent := None, event := [], showNotification := False\<rparr>,
             debounce_timer := Some (now s + 2500, c)\<rparr>)"

definition poll_effect :: "routing \<Rightarrow> routing \<Rightarrow> sys \<Rightarrow> sys" where
  "poll_effect old c s =
     (if poll_deps old = poll_deps c then s
      else if \<not> isLiveEnabled c \<or> result c = None then s\<lparr>poll_timer := None\<rparr>
      else s\<lparr>poll_timer := Some (now s + 12000)\<rparr>)"

definition reset_effect :: "routing \<Rightarrow> routing \<Rightarrow> sys \<Rightarrow> sys" where
  "reset_effect old c s =
     (if endpoint_deps old = endpoint_deps c then s
      else s\<lparr>ui := (ui s)\<lparr>hasSimulatedThisSession := False\<rparr>\<rparr>)"

definition simulation_ready :: "routing \<Rightarrow> bool" where
  "simulation_ready c \<longleftrightarrow>
     result c \<noteq> None \<and> event c = [] \<and> simulatedEvent c = None \<and> \<not> loading c
     \<and> \<not> hasSimulatedThisSession c"

definition simulation_effect :: "routing \<Rightarrow> routing \<Rightarrow> sys \<Rightarrow> sys" where
  "simulation_effect old c s =
     (if simulation_deps old = simulation_deps c then s
      else if simulation_ready c then s\<lparr>sim_timer := Some (now s + 10000, c)\<rparr>
      else s\<lparr>sim_timer := None\<rparr>)"

definition event_effect :: "routing \<Rightarrow> routing \<Rightarrow> sys \<Rightarrow> sys" where
  "event_effect old c s =
     (if event old = event c then s
      else if event c \<noteq> [] \<and> result c \<noteq> None \<and> simulatedEvent c = None
           then handleSubmit_begin c None s
      else s)"

definition run_effects :: "routing \<Rightarrow> sys \<Rightarrow> sys" where
  "run_effects old s =
     (let c = ui s
      in event_effect old c (simulation_effect old c (reset_effect old c
           (poll_effect old c (debounce_effect old c s)))))"

text \<open>
  The setters called by the effects of one render cause one more render. The effects of
  that second render call no setter, so two rounds reach the state in which the
  component waits for the next event.
\<close>

definition render :: "routing \<Rightarrow> sys \<Rightarrow> sys" where
  "render old s = (let s1 = run_effects old s in run_effects (ui s) s1)"

subsection \<open>The timer callbacks\<close>

definition start_display :: "routing \<Rightarrow> string option" where
  "start_display c =
     (case result c of None \<Rightarrow> None | Some r \<Rightarrow> map_option display (start_point r))"

definition end_display :: "routing \<Rightarrow> string option" where
  "end_display c =
     (case result c of None \<Rightarrow> None | Some r \<Rightarrow> map_option display (end_point r))"

definition debounce_callback :: "routing \<Rightarrow> sys \<Rightarrow> sys" where
  "debounce_callback c s =
     (if Some (source c) \<noteq> start_display c \<or> Some (destination c) \<noteq> end_display c
      then handleSubmit_begin c None s
      else s)"

definition mockEventTypes :: "string list" where
  "mockEventTypes = [''Rally'', ''Political meeting'', ''Road construction'']"

text \<open>
  \<open>randomIdx\<close> is the index that the callback computes from \<open>Math.random()\<close> (the source
  keeps it between 30 and 70 per cent of the length); an index outside the list reads
  \<open>undefined\<close>, which is not an array. \<open>labelIdx\<close> is the index drawn for the label, and
  the clock stands for \<open>Date.now()\<close> in the event's identifier.
\<close>

definition pick_location :: "route_result \<Rightarrow> nat \<Rightarrow> latlon option" where
  "pick_location r randomIdx =
     (let along = (case detailed_geometry r of
                     None \<Rightarrow> None
                   | Some g \<Rightarrow> if length g > 10 \<and> randomIdx < length g
                              then Some \<lparr>lat = fst (g ! randomIdx), lon = snd (g ! randomIdx)\<rparr>
                              else None)
      in case along of
           Some l \<Rightarrow> Some l
         | None \<Rightarrow> (case end_point r of
                      Some e \<Rightarrow> Some \<lparr>lat = lat e - 0.001, lon = lon e - 0.001\<rparr>
                    | None \<Rightarrow> None))"

definition simulation_callback :: "routing \<Rightarrow> nat \<Rightarrow> nat \<Rightarrow> sys \<Rightarrow> sys" where
  "simulation_callback c randomIdx labelIdx s =
     (let s1 = s\<lparr>ui := (ui s)\<lparr>hasSimulatedThisSession := True\<rparr>\<rparr>
      in case result c of
           None \<Rightarrow> s1
         | Some r \<Rightarrow>
             (case pick_location r randomIdx of
                None \<Rightarrow> s1
              | Some l \<Rightarrow>
                  (let selectedLabel = mockEventTypes ! labelIdx;
                       mockEvent = \<lparr>lat = lat l, lon = lon l, event_id = now s,
                                    event_name = selectedLabel, severity = ''HIGH'',
                                    affected_radius = 500\<rparr>;
                       s2 = s1\<lparr>ui := (ui s1)\<lparr>simulatedEvent := Some mockEvent,
                                              showNotification := True,
                                              event := selectedLabel\<rparr>\<rparr>
                   in handleSubmit_begin c (Some mockEvent) s2)))"

text \<open>
  The callback of the polling interval. \<open>randomTrigger\<close> is the outcome of
  \<open>Math.random() > 0.8\<close> and \<open>labelIdx\<close> the index drawn for the event.
\<close>

definition mockEvents :: "string list" where
  "mockEvents = [''Rally'', ''Political meeting'', ''Road construction'']"

definition poll_callback :: "bool \<Rightarrow> nat \<Rightarrow> sys \<Rightarrow> sys" where
  "poll_callback randomTrigger labelIdx s =
     (if randomTrigger then s\<lparr>ui := (ui s)\<lparr>event := mockEvents ! labelIdx\<rparr>\<rparr> else s)"

definition reset_callback :: "flag \<Rightarrow> sys \<Rightarrow> sys" where
  "reset_callback f s =
     (case f of
        EtaChanged \<Rightarrow> s\<lparr>ui := (ui s)\<lparr>etaChanged := False\<rparr>\<rparr>
      | DistanceChanged \<Rightarrow> s\<lparr>ui := (ui s)\<lparr>distanceChanged := False\<rparr>\<rparr>
      | IsRerouting \<Rightarrow> s\<lparr>ui := (ui s)\<lparr>isRerouting := False\<rparr>\<rparr>)"

subsection \<open>The event loop\<close>

text \<open>
  One action is one task of the event loop: an input event, the arrival of a response,
  or a timer callback. The setters called in one task are applied together, then the
  component renders. Time passes between tasks; a timer runs when the clock reaches its
  due time, so the clock cannot pass the due time of a pending timer.
\<close>

datatype action =
    SetSource string
  | SetDestination string
  | SelectEvent string
  | SubmitForm
  | ToggleLive
  | DismissNotification
  | ClickStep nat bool
  | ResetView
  | ToggleSidebar
  | Respond nat response
  | DebounceTimeout
  | SimulationTimeout nat nat
  | PollInterval bool nat
  | ResetTimeout nat
  | Elapse nat

definition eventTypes :: "string list" where
  "eventTypes = [[], ''Road Closure'', ''Political Rally'', ''Protest'', ''Concert'',
                 ''Accident'', ''Construction'']"

definition pending_dues :: "sys \<Rightarrow> nat list" where
  "pending_dues s =
     (case debounce_timer s of Some (t, c) \<Rightarrow> [t] | None \<Rightarrow> [])
     @ (case poll_timer s of Some t \<Rightarrow> [t] | None \<Rightarrow> [])
     @ (case sim_timer s of Some (t, c) \<Rightarrow> [t] | None \<Rightarrow> [])
     @ map fst (reset_timers s)"

definition delete_at :: "nat \<Rightarrow> 'a list \<Rightarrow> 'a list" where
  "delete_at i xs = take i xs @ drop (Suc i) xs"

definition handler :: "action \<Rightarrow> sys \<Rightarrow> sys option" where
  "handler a s =
     (case a of
        SetSource v \<Rightarrow> Some (s\<lparr>ui := (ui s)\<lparr>source := v\<rparr>\<rparr>)
      | SetDestination v \<Rightarrow> Some (s\<lparr>ui := (ui s)\<lparr>destination := v\<rparr>\<rparr>)
      | SelectEvent v \<Rightarrow>
          if v \<in> set eventTypes then Some (s\<lparr>ui := (ui s)\<lparr>event := v\<rparr>\<rparr>) else None
      | SubmitForm \<Rightarrow>
          if \<not> loading (ui s) \<and> source (ui s) \<noteq> [] \<and> destination (ui s) \<noteq> []
          then Some (handleSubmit_begin (ui s) None s) else None
      | ToggleLive \<Rightarrow> Some (s\<lparr>ui := (ui s)\<lparr>isLiveEnabled := \<not> isLiveEnabled (ui s)\<rparr>\<rparr>)
      | DismissNotification \<Rightarrow> Some (s\<lparr>ui := (ui s)\<lparr>showNotification := False\<rparr>\<rparr>)
      | ClickStep i narrow \<Rightarrow>
          Some (s\<lparr>ui := (ui s)\<lparr>activeStepIndex := Some i,
                                isSidebarOpen := (if narrow then False else isSidebarOpen (ui s))\<rparr>\<rparr>)
      | ResetView \<Rightarrow> Some (s\<lparr>ui := (ui s)\<lparr>activeStepIndex := None\<rparr>\<rparr>)
      | ToggleSidebar \<Rightarrow> Some (s\<lparr>ui := (ui s)\<lparr>isSidebarOpen := \<not> isSidebarOpen (ui s)\<rparr>\<rparr>)
      | Respond k r \<Rightarrow>
          if k < length (inflight s)
          then Some (handleSubmit_resume (inflight s ! k) r
                       (s\<lparr>inflight := delete_at k (inflight s)\<rparr>))
          else None
      | DebounceTimeout \<Rightarrow>
          (case debounce_timer s of
             Some (t, c) \<Rightarrow>
               if t \<le> now s then Some (debounce_callback c (s\<lparr>debounce_timer := None\<rparr>))
               else None
           | None \<Rightarrow> None)
      | SimulationTimeout randomIdx labelIdx \<Rightarrow>
          (case sim_timer s of
             Some (t, c) \<Rightarrow>
               if t \<le> now s \<and> labelIdx < length mockEventTypes
               then Some (simulation_callback c randomIdx labelIdx (s\<lparr>sim_timer := None\<rparr>))
               else None
           | None \<Rightarrow> None)
      | PollInterval randomTrigger labelIdx \<Rightarrow>
          (case poll_timer s of
             Some t \<Rightarrow>
               if t \<le> now s \<and> labelIdx < length mockEvents
               then Some (poll_callback randomTrigger labelIdx (s\<lparr>poll_timer := Some (t + 12000)\<rparr>))
               else None
           | None \<Rightarrow> None)
      | ResetTimeout i \<Rightarrow>
          if i < length (reset_timers s) \<and> fst (reset_timers s ! i) \<le> now s
          then Some (reset_callback (snd (reset_timers s ! i))
                       (s\<lparr>reset_timers := delete_at i (reset_timers s)\<rparr>))
          else None
      | Elapse d \<Rightarrow>
          if list_all (\<lambda>t. now s + d \<le> t) (pending_dues s) then Some (s\<lparr>now := now s + d\<rparr>)
          else None)"

definition step :: "action \<Rightarrow> sys \<Rightarrow> sys option" where
  "step a s = map_option (render (ui s)) (handler a s)"

fun exec :: "action list \<Rightarrow> sys \<Rightarrow> sys option" where
  "exec [] s = Some s"
| "exec (a # as) s = (case step a s of None \<Rightarrow> None | Some s' \<Rightarrow> exec as s')"

subsection \<open>Runs and sample data\<close>

text \<open>
  \<open>after as\<close> is the state that the run \<open>as\<close> reaches from the freshly mounted component;
  it is meant for runs that \<open>exec\<close> accepts.
\<close>

definition after :: "action list \<Rightarrow> sys" where
  "after as = the (exec as initial)"

fun is_edit :: "action \<Rightarrow> bool" where
  "is_edit (SetSource v) = True"
| "is_edit (SetDestination v) = True"
| "is_edit a = False"


fun is_reset :: "action \<Rightarrow> bool" where
  "is_reset (ResetTimeout i) = True"
| "is_reset a = False"

definition route_a :: route_result where
  "route_a =
     \<lparr>recommended_route = ''Hosur Road'', distance_km = 10, duration_minutes = 20,
      estimated_co2_kg = 1.2,
      start_point = Some \<lparr>lat = 12.9166, lon = 77.6101, display = ''BTM Layout''\<rparr>,
      end_point = Some \<lparr>lat = 12.9756, lon = 77.6050, display = ''MG Road''\<rparr>,
      geometry = JS_string ''_p~iF~ps|U_ulLnnqC'', detailed_geometry = None,
      provider_used = Some ''osrm''\<rparr>"

definition route_b :: route_result where
  "route_b =
     \<lparr>recommended_route = ''Outer Ring Road'', distance_km = 12, duration_minutes = 25,
      estimated_co2_kg = 1.5,
      start_point = Some \<lparr>lat = 12.9166, lon = 77.6101, display = ''BTM Layout''\<rparr>,
      end_point = Some \<lparr>lat = 12.9784, lon = 77.6408, display = ''Indiranagar''\<rparr>,
      geometry = JS_string ''_p~iF~ps|U_mqNvxq`@'', detailed_geometry = None,
      provider_used = Some ''osrm''\<rparr>"

text \<open>Two other routes between the endpoints of \<open>route_a\<close>.\<close>

definition route_detour :: route_result where
  "route_detour =
     route_a\<lparr>recommended_route := ''Bannerghatta Road'', distance_km := 12,
             duration_minutes := 25, geometry := JS_string ''_p~iF~ps|U_ulLnnqC_mqNvxq`@''\<rparr>"

definition route_shortcut :: route_result where
  "route_shortcut =
     route_a\<lparr>recommended_route := ''Lalbagh Road'', distance_km := 11,
             duration_minutes := 25, geometry := JS_string ''_p~iF~ps|U_mqNvxq`@_ulLnnqC''\<rparr>"

text \<open>Two results with the same compact geometry and different detailed geometry.\<close>

definition route_fine :: route_result where
  "route_fine =
     route_a\<lparr>detailed_geometry := Some [(12.9166, 77.6101), (12.9400, 77.6080), (12.9756, 77.6050)]\<rparr>"

definition route_fine_moved :: route_result where
  "route_fine_moved =
     route_a\<lparr>detailed_geometry := Some [(12.9166, 77.6101), (12.9450, 77.6200), (12.9756, 77.6050)]\<rparr>"

text \<open>
  Two results without a compact geometry: the member is null in one and absent in the
  other.
\<close>

definition route_null :: route_result where
  "route_null = route_a\<lparr>geometry := JS_null\<rparr>"

definition route_absent :: route_result where
  "route_absent = route_a\<lparr>geometry := JS_undefined\<rparr>"

text \<open>
  The user types both endpoints, the debounce timer runs and posts a request. In
  \<open>displayed r\<close> the response \<open>r\<close> has arrived.
\<close>

definition requested :: "action list" where
  "requested = [SetSource ''BTM Layout'', SetDestination ''MG Road'', Elapse 2500, DebounceTimeout]"

definition displayed :: "route_result \<Rightarrow> action list" where
  "displayed r = requested @ [Respond 0 (Success r ''10:00:00'')]"

text \<open>
  A second edit while the first request is still in flight: two requests are pending,
  the first for the old destination and the second for the new one.
\<close>

definition race :: "action list" where
  "race = requested @ [SetDestination ''Indiranagar'', Elapse 2500, DebounceTimeout]"

text \<open>
  The result that an action applies, if it is the arrival of a successful response, and
  the result applied last in a run.
\<close>

fun applied :: "action \<Rightarrow> route_result option" where
  "applied (Respond k (Success d t)) = Some d"
| "applied a = None"

fun latest :: "action list \<Rightarrow> route_result option \<Rightarrow> route_result option" where
  "latest [] cur = cur"
| "latest (a # as) cur = latest as (case applied a of Some d \<Rightarrow> Some d | None \<Rightarrow> cur)"

text \<open>
  The displayed route is requested again and a detour arrives; it is requested once more
  and, one second later, a third route arrives.
\<close>

definition rerouted :: "action list" where
  "rerouted = displayed route_a @ [SubmitForm, Respond 0 (Success route_detour ''10:00:09'')]"

definition rerouted_again :: "action list" where
  "rerouted_again = rerouted @ [SubmitForm, Elapse 1000]"

text \<open>Every pending timer is due now or later.\<close>

definition timers_ahead :: "sys \<Rightarrow> bool" where
  "timers_ahead s \<longleftrightarrow> list_all (\<lambda>t. now s \<le> t) (pending_dues s)"


text \<open>
  The action is a run of the simulation timer that finds a location for its event.
\<close>

fun event_placed :: "action \<Rightarrow> sys \<Rightarrow> bool" where
  "event_placed (SimulationTimeout randomIdx labelIdx) s =
     (case sim_timer s of
        Some (t, c) \<Rightarrow> (case result c of
                         Some r \<Rightarrow> pick_location r randomIdx \<noteq> None
                       | None \<Rightarrow> False)
      | None \<Rightarrow> False)"
| "event_placed a s = False"

text \<open>
  Ten seconds after the route is displayed the simulation timer runs. In \<open>idle_after\<close>
  the recomputed route arrives and two more idle periods of ten seconds pass.
\<close>

definition simulated :: "action list" where
  "simulated = displayed route_a @ [Elapse 10000, SimulationTimeout 0 0]"

definition idle_after :: "action list" where
  "idle_after = [Respond 0 (Success route_a ''10:00:20''), Elapse 10000, Elapse 10000]"

text \<open>
  The user leaves the pair of endpoints after the simulation and enters it again: the
  recomputed route arrives, the destination is changed and a route to it is displayed,
  then the destination is changed back and the first route is displayed again. In
  \<open>simulated_again\<close> the timers of the two reroutes run when they are due, ten seconds
  pass since the last response, and the simulation timer runs.
\<close>

definition reentered :: "action list" where
  "reentered =
     simulated @ [Respond 0 (Success route_a ''10:00:20''),
                  SetDestination ''Indiranagar'', Elapse 2500, DebounceTimeout,
                  Respond 0 (Success route_b ''10:00:23''),
                  SetDestination ''MG Road'', Elapse 2500, DebounceTimeout,
                  Respond 0 (Success route_a ''10:00:26'')]"

definition simulated_again :: "action list" where
  "simulated_again =
     reentered @ [Elapse 500, ResetTimeout 0, ResetTimeout 0, ResetTimeout 0,
                  Elapse 2500, ResetTimeout 0, ResetTimeout 0, ResetTimeout 0,
                  Elapse 7000, SimulationTimeout 0 1]"


section \<open>Properties of the route session\<close>

subsection \<open>What the effects and the handlers change\<close>

lemmas effect_defs =
  Let_def debounce_effect_def poll_effect_def reset_effect_def simulation_effect_def
  event_effect_def handleSubmit_begin_def

lemma run_effects_same: "ui s = old \<Longrightarrow> run_effects old s = s"
  by (simp add: run_effects_def effect_defs)

lemma run_effects_keeps:
  "source (ui (run_effects old s)) = source (ui s)"
  "destination (ui (run_effects old s)) = destination (ui s)"
  "result (ui (run_effects old s)) = result (ui s)"
  "result_ref (ui (run_effects old s)) = result_ref (ui s)"
  "previousResult (ui (run_effects old s)) = previousResult (ui s)"
  "isRerouting (ui (run_effects old s)) = isRerouting (ui s)"
  "etaChanged (ui (run_effects old s)) = etaChanged (ui s)"
  "distanceChanged (ui (run_effects old s)) = distanceChanged (ui s)"
  "isLiveEnabled (ui (run_effects old s)) = isLiveEnabled (ui s)"
  "lastCalculated (ui (run_effects old s)) = lastCalculated (ui s)"
  "isSidebarOpen (ui (run_effects old s)) = isSidebarOpen (ui s)"
  "now (run_effects old s) = now s"
  "reset_timers (run_effects old s) = reset_timers s"
  by (simp_all add: run_effects_def effect_defs)

lemma run_effects_quiet:
  "endpoint_deps old = endpoint_deps (ui s) \<Longrightarrow>
   event old = event (ui s) \<or> event (ui s) = [] \<or> result (ui s) = None
     \<or> simulatedEvent (ui s) \<noteq> None \<Longrightarrow>
   ui (run_effects old s) = ui s \<and> inflight (run_effects old s) = inflight s
   \<and> debounce_timer (run_effects old s) = debounce_timer s"
  by (auto simp add: run_effects_def effect_defs)

lemma run_effects_event:
  "event (ui (run_effects old s)) =
     (if endpoint_deps old \<noteq> endpoint_deps (ui s) \<and> source (ui s) \<noteq> [] \<and> destination (ui s) \<noteq> []
      then [] else event (ui s))"
  by (simp add: run_effects_def effect_defs)

lemma run_effects_sim_timer:
  "sim_timer (run_effects old s) =
     (if simulation_deps old = simulation_deps (ui s) then sim_timer s
      else if simulation_ready (ui s) then Some (now s + 10000, ui s) else None)"
  by (simp add: run_effects_def effect_defs)

lemma render_ui: "ui (render old s) = ui (run_effects old s)"
  unfolding render_def Let_def
  by (rule run_effects_quiet [THEN conjunct1])
     (simp_all add: run_effects_keeps endpoint_deps_def run_effects_event)

lemma render_keeps:
  "source (ui (render old s)) = source (ui s)"
  "destination (ui (render old s)) = destination (ui s)"
  "result (ui (render old s)) = result (ui s)"
  "result_ref (ui (render old s)) = result_ref (ui s)"
  "previousResult (ui (render old s)) = previousResult (ui s)"
  "isRerouting (ui (render old s)) = isRerouting (ui s)"
  "etaChanged (ui (render old s)) = etaChanged (ui s)"
  "distanceChanged (ui (render old s)) = distanceChanged (ui s)"
  "isLiveEnabled (ui (render old s)) = isLiveEnabled (ui s)"
  "lastCalculated (ui (render old s)) = lastCalculated (ui s)"
  "isSidebarOpen (ui (render old s)) = isSidebarOpen (ui s)"
  by (simp_all add: render_ui run_effects_keeps)

lemma render_keeps_sys:
  "now (render old s) = now s"
  "reset_timers (render old s) = reset_timers s"
  by (simp_all add: render_def Let_def run_effects_keeps)

lemma render_quiet:
  "endpoint_deps old = endpoint_deps (ui s) \<Longrightarrow> event old = event (ui s) \<Longrightarrow>
   ui (render old s) = ui s"
  by (simp add: render_ui run_effects_quiet)

text \<open>A third round of effects would change nothing.\<close>

lemma render_settled:
  "run_effects (ui (run_effects old s)) (render old s) = render old s"
  by (rule run_effects_same) (simp add: render_ui)

lemmas callback_defs =
  handler_def debounce_callback_def simulation_callback_def poll_callback_def
  reset_callback_def handleSubmit_begin_def handleSubmit_resume_def reroute_flags_def
  Let_def

lemma handler_result:
  assumes "handler a s = Some h"
  shows "(\<forall>k d t. a \<noteq> Respond k (Success d t)) \<Longrightarrow>
           result (ui h) = result (ui s) \<and> previousResult (ui h) = previousResult (ui s)
           \<and> result_ref (ui h) = result_ref (ui s)"
    and "a = Respond k (Success d t) \<Longrightarrow>
           result (ui h) = Some d \<and> previousResult (ui h) = Some d
           \<and> result_ref (ui h) = Suc (result_ref (ui s))"
  using assms
  by (cases a; auto simp: callback_defs split: option.splits if_splits response.splits flag.splits)+

text \<open>The definitions that a concrete run unfolds.\<close>

lemmas run_defs =
  after_def race_def requested_def displayed_def step_def handler_def render_def
  run_effects_def effect_defs callback_defs initial_def initial_routing_def
  endpoint_deps_def poll_deps_def simulation_deps_def simulation_ready_def
  start_display_def end_display_def pending_dues_def delete_at_def make_payload_def
  pick_location_def mockEventTypes_def mockEvents_def eventTypes_def error_text_def
  rerouted_def rerouted_again_def simulated_def idle_after_def reentered_def
  simulated_again_def distance_delta_def duration_delta_def

text \<open>
  The members of the sample results that the component reads. A run keeps the results
  themselves folded.
\<close>

lemma route_facts:
  "geometry route_a = JS_string ''_p~iF~ps|U_ulLnnqC''"
  "duration_minutes route_a = 20" "distance_km route_a = 10"
  "detailed_geometry route_a = None"
  "end_point route_a = Some \<lparr>lat = 12.9756, lon = 77.6050, display = ''MG Road''\<rparr>"
  "geometry route_detour = JS_string ''_p~iF~ps|U_ulLnnqC_mqNvxq`@''"
  "duration_minutes route_detour = 25" "distance_km route_detour = 12"
  "geometry route_shortcut = JS_string ''_p~iF~ps|U_mqNvxq`@_ulLnnqC''"
  "duration_minutes route_shortcut = 25" "distance_km route_shortcut = 11"
  "geometry route_fine = JS_string ''_p~iF~ps|U_ulLnnqC''"
  "geometry route_fine_moved = JS_string ''_p~iF~ps|U_ulLnnqC''"
  "geometry route_b = JS_string ''_p~iF~ps|U_mqNvxq`@''"
  "geometry route_null = JS_null" "geometry route_absent = JS_undefined"
  "duration_minutes route_null = 20" "distance_km route_null = 10"
  "duration_minutes route_absent = 20" "distance_km route_absent = 10"
  "start_point route_a = Some \<lparr>lat = 12.9166, lon = 77.6101, display = ''BTM Layout''\<rparr>"
  "start_point route_b = Some \<lparr>lat = 12.9166, lon = 77.6101, display = ''BTM Layout''\<rparr>"
  "end_point route_b = Some \<lparr>lat = 12.9784, lon = 77.6408, display = ''Indiranagar''\<rparr>"
  "duration_minutes route_b = 25" "distance_km route_b = 12"
  "detailed_geometry route_b = None"
  by (simp_all add: route_a_def route_b_def route_detour_def route_shortcut_def route_fine_def
        route_fine_moved_def route_null_def route_absent_def)

lemma route_differences:
  "route_detour \<noteq> route_a"
  "detailed_geometry route_fine \<noteq> None"
  "detailed_geometry route_fine_moved \<noteq> None"
  "detailed_geometry route_fine \<noteq> detailed_geometry route_fine_moved"
  by (simp_all add: route_a_def route_detour_def route_fine_def route_fine_moved_def)

lemma step_Respond:
  assumes "step (Respond k r) s = Some s'"
  shows "k < length (inflight s)"
    and "ui s' = ui (handleSubmit_resume (inflight s ! k) r
                       (s\<lparr>inflight := delete_at k (inflight s)\<rparr>))"
    and "reset_timers s' = reset_timers (handleSubmit_resume (inflight s ! k) r
                       (s\<lparr>inflight := delete_at k (inflight s)\<rparr>))"
    and "now s' = now s"
proof -
  from assms show k: "k < length (inflight s)"
    by (auto simp: step_def handler_def split: if_splits)
  let ?h = "handleSubmit_resume (inflight s ! k) r (s\<lparr>inflight := delete_at k (inflight s)\<rparr>)"
  from assms k have s': "s' = render (ui s) ?h"
    by (auto simp: step_def handler_def)
  have "endpoint_deps (ui s) = endpoint_deps (ui ?h)" "event (ui s) = event (ui ?h)"
    by (auto simp: handleSubmit_resume_def reroute_flags_def endpoint_deps_def Let_def
          split: response.splits option.splits)
  then show "ui s' = ui ?h" unfolding s' by (rule render_quiet)
  show "reset_timers s' = reset_timers ?h" unfolding s' by (simp add: render_keeps_sys)
  show "now s' = now s" unfolding s'
    by (auto simp: render_keeps_sys handleSubmit_resume_def reroute_flags_def Let_def
          split: response.splits option.splits)
qed

lemma step_result:
  assumes "step a s = Some s'"
  shows "result (ui s') = (case applied a of Some d \<Rightarrow> Some d | None \<Rightarrow> result (ui s))"
    and "previousResult (ui s') = (case applied a of Some d \<Rightarrow> Some d | None \<Rightarrow> previousResult (ui s))"
proof -
  from assms obtain h where h: "handler a s = Some h" and s': "s' = render (ui s) h"
    by (auto simp: step_def)
  show "result (ui s') = (case applied a of Some d \<Rightarrow> Some d | None \<Rightarrow> result (ui s))"
    using handler_result [OF h] unfolding s' render_keeps
    by (cases a rule: applied.cases) auto
  show "previousResult (ui s') = (case applied a of Some d \<Rightarrow> Some d | None \<Rightarrow> previousResult (ui s))"
    using handler_result [OF h] unfolding s' render_keeps
    by (cases a rule: applied.cases) auto
qed

lemma exec_latest:
  "exec as s0 = Some s \<Longrightarrow>
   result (ui s) = latest as (result (ui s0))
   \<and> previousResult (ui s) = latest as (previousResult (ui s0))"
proof (induction as arbitrary: s0)
  case Nil
  then show ?case by simp
next
  case (Cons a as)
  from Cons.prems obtain s1 where a: "step a s0 = Some s1" and r: "exec as s1 = Some s"
    by (auto split: option.splits)
  from Cons.IH [OF r] step_result [OF a] show ?case by simp
qed

lemma step_SubmitForm:
  assumes "step SubmitForm s = Some s'"
  shows "ui s' = (ui s)\<lparr>loading := True, error := None, activeStepIndex := None\<rparr>"
proof -
  let ?h = "handleSubmit_begin (ui s) None s"
  from assms have s': "s' = render (ui s) ?h"
    by (auto simp: step_def handler_def split: if_splits)
  have "endpoint_deps (ui s) = endpoint_deps (ui ?h)" "event (ui s) = event (ui ?h)"
    by (simp_all add: handleSubmit_begin_def endpoint_deps_def)
  then have "ui s' = ui ?h" unfolding s' by (rule render_quiet)
  then show ?thesis by (simp add: handleSubmit_begin_def)
qed

lemma resume_reroute:
  assumes "seen_previousResult q = Some p"
  shows "reset_timers (handleSubmit_resume q (Success d t) s) =
           (if geometry p \<noteq> geometry d
            then reset_timers s
                 @ (if duration_minutes p \<noteq> duration_minutes d then [(now s + 3000, EtaChanged)] else [])
                 @ (if distance_km p \<noteq> distance_km d then [(now s + 3000, DistanceChanged)] else [])
                 @ [(now s + 3000, IsRerouting)]
            else reset_timers s)"
    and "isRerouting (ui (handleSubmit_resume q (Success d t) s)) =
           (isRerouting (ui s) \<or> geometry p \<noteq> geometry d)"
    and "etaChanged (ui (handleSubmit_resume q (Success d t) s)) =
           (etaChanged (ui s) \<or> geometry p \<noteq> geometry d \<and> duration_minutes p \<noteq> duration_minutes d)"
    and "distanceChanged (ui (handleSubmit_resume q (Success d t) s)) =
           (distanceChanged (ui s) \<or> geometry p \<noteq> geometry d \<and> distance_km p \<noteq> distance_km d)"
  using assms by (auto simp: handleSubmit_resume_def reroute_flags_def Let_def)


subsection \<open>Timers run when they are due\<close>

lemma timers_ahead_iff:
  "timers_ahead s \<longleftrightarrow>
     (\<forall>t c. debounce_timer s = Some (t, c) \<longrightarrow> now s \<le> t)
     \<and> (\<forall>t. poll_timer s = Some t \<longrightarrow> now s \<le> t)
     \<and> (\<forall>t c. sim_timer s = Some (t, c) \<longrightarrow> now s \<le> t)
     \<and> (\<forall>t f. (t, f) \<in> set (reset_timers s) \<longrightarrow> now s \<le> t)"
  by (cases "debounce_timer s"; cases "poll_timer s"; cases "sim_timer s")
     (force simp: timers_ahead_def pending_dues_def list_all_iff)+

lemma run_effects_debounce_timer:
  "debounce_timer (run_effects old s) =
     (if endpoint_deps old = endpoint_deps (ui s) then debounce_timer s
      else if source (ui s) = [] \<or> destination (ui s) = [] then None
      else Some (now s + 2500, ui s))"
  by (simp add: run_effects_def effect_defs)

lemma run_effects_poll_timer:
  "poll_timer (run_effects old s) =
     (if poll_deps old = poll_deps (ui s) then poll_timer s
      else if \<not> isLiveEnabled (ui s) \<or> result (ui s) = None then None
      else Some (now s + 12000))"
  by (simp add: run_effects_def effect_defs)

lemma run_effects_timers_ahead:
  "timers_ahead s \<Longrightarrow> timers_ahead (run_effects old s)"
  unfolding timers_ahead_iff
  by (simp add: run_effects_debounce_timer run_effects_poll_timer run_effects_sim_timer
        run_effects_keeps)

lemma render_timers_ahead: "timers_ahead s \<Longrightarrow> timers_ahead (render old s)"
  by (simp add: render_def Let_def run_effects_timers_ahead)

lemma set_delete_at: "x \<in> set (delete_at i xs) \<Longrightarrow> x \<in> set xs"
  by (auto simp: delete_at_def dest: in_set_takeD in_set_dropD)

lemma handleSubmit_begin_timers [simp]:
  "debounce_timer (handleSubmit_begin c e s) = debounce_timer s"
  "poll_timer (handleSubmit_begin c e s) = poll_timer s"
  "sim_timer (handleSubmit_begin c e s) = sim_timer s"
  "reset_timers (handleSubmit_begin c e s) = reset_timers s"
  "now (handleSubmit_begin c e s) = now s"
  by (simp_all add: handleSubmit_begin_def)

lemma handleSubmit_resume_timers [simp]:
  "debounce_timer (handleSubmit_resume q r s) = debounce_timer s"
  "poll_timer (handleSubmit_resume q r s) = poll_timer s"
  "sim_timer (handleSubmit_resume q r s) = sim_timer s"
  "now (handleSubmit_resume q r s) = now s"
  by (simp_all add: handleSubmit_resume_def reroute_flags_def Let_def
        split: response.splits option.splits)

lemma handleSubmit_resume_reset_timers:
  "(t, f) \<in> set (reset_timers (handleSubmit_resume q r s)) \<Longrightarrow>
   (t, f) \<in> set (reset_timers s) \<or> t = now s + 3000"
  by (auto simp: handleSubmit_resume_def reroute_flags_def Let_def
        split: response.splits option.splits if_splits)

lemma handler_timers_ahead:
  assumes "handler a s = Some h" "timers_ahead s"
  shows "timers_ahead h"
proof (cases a)
  case (Respond k r)
  with assms(1) have h: "h = handleSubmit_resume (inflight s ! k) r (s\<lparr>inflight := delete_at k (inflight s)\<rparr>)"
    by (auto simp: handler_def split: if_splits)
  show ?thesis
    using assms(2) unfolding timers_ahead_iff h
    by (fastforce dest: handleSubmit_resume_reset_timers)
next
  case (ResetTimeout i)
  with assms(1) have h: "h = reset_callback (snd (reset_timers s ! i))
                       (s\<lparr>reset_timers := delete_at i (reset_timers s)\<rparr>)"
    by (auto simp: handler_def split: if_splits)
  show ?thesis
    using assms(2) unfolding timers_ahead_iff h
    by (fastforce simp: reset_callback_def split: flag.splits dest: set_delete_at)
next
  case (Elapse d)
  with assms(1) have h: "h = s\<lparr>now := now s + d\<rparr>"
    and g: "list_all (\<lambda>t. now s + d \<le> t) (pending_dues s)"
    by (auto simp: handler_def split: if_splits)
  from g have "timers_ahead h"
    unfolding h timers_ahead_def by (simp add: pending_dues_def)
  then show ?thesis .
next
  case DebounceTimeout
  with assms show ?thesis
    unfolding timers_ahead_iff
    by (fastforce simp: handler_def debounce_callback_def split: option.splits if_splits)
next
  case (SimulationTimeout i j)
  with assms show ?thesis
    unfolding timers_ahead_iff
    by (fastforce simp: handler_def simulation_callback_def Let_def split: option.splits if_splits)
next
  case (PollInterval b j)
  with assms show ?thesis
    unfolding timers_ahead_iff
    by (fastforce simp: handler_def poll_callback_def split: option.splits if_splits)
qed (use assms in \<open>fastforce simp: timers_ahead_iff handler_def split: if_splits\<close>)+

lemma step_timers_ahead: "step a s = Some s' \<Longrightarrow> timers_ahead s \<Longrightarrow> timers_ahead s'"
  by (auto simp: step_def intro: render_timers_ahead handler_timers_ahead)

lemma exec_timers_ahead: "exec as s = Some s' \<Longrightarrow> timers_ahead s \<Longrightarrow> timers_ahead s'"
  by (induction as arbitrary: s) (auto split: option.splits dest: step_timers_ahead)

lemma reachable_timers_ahead: "exec as initial = Some s \<Longrightarrow> timers_ahead s"
  by (erule exec_timers_ahead) (simp add: timers_ahead_def pending_dues_def initial_def)

lemma step_ResetTimeout:
  assumes "step (ResetTimeout i) s = Some s'"
  shows "i < length (reset_timers s)" "fst (reset_timers s ! i) \<le> now s"
    and "reset_timers s' = delete_at i (reset_timers s)"
    and "ui s' = ui (reset_callback (snd (reset_timers s ! i)) s)"
proof -
  from assms show g: "i < length (reset_timers s)" "fst (reset_timers s ! i) \<le> now s"
    by (auto simp: step_def handler_def split: if_splits)
  let ?h = "reset_callback (snd (reset_timers s ! i)) (s\<lparr>reset_timers := delete_at i (reset_timers s)\<rparr>)"
  from assms g have s': "s' = render (ui s) ?h"
    by (auto simp: step_def handler_def)
  have "endpoint_deps (ui s) = endpoint_deps (ui ?h)" "event (ui s) = event (ui ?h)"
    by (auto simp: reset_callback_def endpoint_deps_def split: flag.splits)
  then have "ui s' = ui ?h" unfolding s' by (rule render_quiet)
  then show "ui s' = ui (reset_callback (snd (reset_timers s ! i)) s)"
    by (simp add: reset_callback_def split: flag.splits)
  show "reset_timers s' = delete_at i (reset_timers s)"
    unfolding s' by (simp add: render_keeps_sys reset_callback_def split: flag.splits)
qed

lemma step_keeps_reset_timers:
  assumes "step a s = Some s'" "\<not> is_reset a"
  shows "take (length (reset_timers s)) (reset_timers s') = reset_timers s"
proof -
  from assms(1) obtain h where h: "handler a s = Some h" and s': "s' = render (ui s) h"
    by (auto simp: step_def)
  have "take (length (reset_timers s)) (reset_timers h) = reset_timers s"
    using h assms(2)
    by (cases a)
       (auto simp: callback_defs split: option.splits if_splits response.splits)
  then show ?thesis unfolding s' by (simp add: render_keeps_sys)
qed

subsection \<open>The simulation timer and the notification\<close>








lemma run_effects_showNotification:
  "showNotification (ui (run_effects old s)) =
     (if endpoint_deps old \<noteq> endpoint_deps (ui s) \<and> source (ui s) \<noteq> [] \<and> destination (ui s) \<noteq> []
      then False else showNotification (ui s))"
  by (simp add: run_effects_def effect_defs)

lemma handler_endpoints:
  "handler a s = Some h \<Longrightarrow> \<not> is_edit a \<Longrightarrow> endpoint_deps (ui h) = endpoint_deps (ui s)"
  by (cases a)
     (auto simp: callback_defs endpoint_deps_def
        split: option.splits if_splits response.splits flag.splits)


lemma handler_showNotification:
  "handler a s = Some h \<Longrightarrow>
   showNotification (ui h) =
     (event_placed a s \<or> a \<noteq> DismissNotification \<and> showNotification (ui s))"
  by (cases a)
     (auto simp: callback_defs split: option.splits if_splits response.splits flag.splits)


lemma step_endpoints:
  assumes "step a s = Some s'" "\<not> is_edit a"
  shows "endpoint_deps (ui s') = endpoint_deps (ui s)"
proof -
  from assms obtain h where h: "handler a s = Some h" and s': "s' = render (ui s) h"
    by (auto simp: step_def)
  have "endpoint_deps (ui s') = endpoint_deps (ui h)"
    by (simp add: s' endpoint_deps_def render_keeps)
  with handler_endpoints [OF h assms(2)] show ?thesis by simp
qed




lemma step_showNotification:
  assumes "step a s = Some s'"
  shows "showNotification (ui s') =
           ((endpoint_deps (ui s') = endpoint_deps (ui s) \<or> source (ui s') = []
               \<or> destination (ui s') = [])
            \<and> (event_placed a s \<or> a \<noteq> DismissNotification \<and> showNotification (ui s)))"
proof -
  from assms obtain h where h: "handler a s = Some h" and s': "s' = render (ui s) h"
    by (auto simp: step_def)
  have "endpoint_deps (ui s') = endpoint_deps (ui h)" "source (ui s') = source (ui h)"
    "destination (ui s') = destination (ui h)"
    by (simp_all add: s' endpoint_deps_def render_keeps)
  then show ?thesis
    using handler_showNotification [OF h]
    by (auto simp: s' render_ui run_effects_showNotification)
qed

subsection \<open>Responses and supersession\<close>

text \<open>
  Claim C1, as the code has it. The component keeps no token and compares none: the
  response to any request in flight, whichever was posted last, changes the session when
  it arrives. A successful response becomes the displayed result, and a failure sets the
  error text.
\<close>

theorem response_always_applied:
  assumes "step (Respond k r) s = Some s'"
  shows "case r of
           Success d t \<Rightarrow> result (ui s') = Some d
         | Failure detail \<Rightarrow> error (ui s') = Some (error_text detail)"
  using step_Respond(2) [OF assms]
  by (auto simp: handleSubmit_resume_def reroute_flags_def Let_def
        split: response.splits option.splits)

theorem response_always_applied_witness:
  "step (Respond 0 (Success route_a ''10:00:06''))
        (after (race @ [Respond 1 (Success route_b ''10:00:05'')])) \<noteq> None
   \<and> result (ui (after (race @ [Respond 1 (Success route_b ''10:00:05''),
                                  Respond 0 (Success route_a ''10:00:06'')]))) = Some route_a"
proof -
  have st: "step (Respond 0 (Success route_a ''10:00:06''))
                 (after (race @ [Respond 1 (Success route_b ''10:00:05'')]))
            = Some (after (race @ [Respond 1 (Success route_b ''10:00:05''),
                                   Respond 0 (Success route_a ''10:00:06'')]))"
    by (simp add: run_defs route_facts route_differences)
  from response_always_applied [OF st] st show ?thesis by simp
qed

text \<open>
  Claim C1 as stated fails. Request A (to MG Road) is posted, then request B (to
  Indiranagar). B resolves first and its result is displayed; then A resolves, and the
  session displays A's result: the resolution of the superseded request is not a no-op.
\<close>

theorem stale_response_counterexample:
  "exec (race @ [Respond 1 (Success route_b ''10:00:05''),
                 Respond 0 (Success route_a ''10:00:06'')]) initial \<noteq> None
   \<and> map (req_destination \<circ> sent) (inflight (after race)) = [''MG Road'', ''Indiranagar'']
   \<and> result (ui (after (race @ [Respond 1 (Success route_b ''10:00:05'')]))) = Some route_b
   \<and> result (ui (after (race @ [Respond 1 (Success route_b ''10:00:05''),
                                  Respond 0 (Success route_a ''10:00:06'')]))) = Some route_a"
  by (simp add: run_defs route_facts route_differences)

subsection \<open>The previous result\<close>

text \<open>
  \<open>handleSubmit\<close> ends with \<open>setPreviousResult(response.data)\<close>, in the same batch as
  \<open>setResult(response.data)\<close>. So in every state that the session reaches
  \<open>previousResult\<close> is the displayed result itself, and a delta that the component
  prints from the two is zero whenever it is printed.
\<close>

lemma previousResult_is_result:
  assumes "exec as initial = Some s"
  shows "previousResult (ui s) = result (ui s)"
  using exec_latest [OF assms] by (simp add: initial_def initial_routing_def)

lemma delta_display_zero:
  assumes "exec as initial = Some s"
  shows "distance_delta (ui s) \<in> {None, Some 0}" and "duration_delta (ui s) \<in> {None, Some 0}"
  using previousResult_is_result [OF assms]
  by (auto simp: distance_delta_def duration_delta_def split: option.splits)

text \<open>
  Claim C4 fails on the code. The first route (10 km, 20 min) is displayed, it is
  requested again and a detour (12 km, 25 min) arrives. Immediately before this
  application the first route was displayed, so the claim gives it as the previous
  result; the code has overwritten \<open>previousResult\<close> with the detour. The component
  itself reads \<open>previousResult\<close> as the earlier result: both changed flags are set, and
  the deltas that it prints from \<open>result\<close> and \<open>previousResult\<close> are 0, not 2 km and
  5 min.
\<close>

theorem previousResult_overwritten:
  "exec rerouted initial \<noteq> None
   \<and> result (ui (after (displayed route_a))) = Some route_a
   \<and> result (ui (after rerouted)) = Some route_detour
   \<and> previousResult (ui (after rerouted)) = Some route_detour
   \<and> route_detour \<noteq> route_a
   \<and> distance_km route_a = 10 \<and> distance_km route_detour = 12
   \<and> duration_minutes route_a = 20 \<and> duration_minutes route_detour = 25
   \<and> distanceChanged (ui (after rerouted)) \<and> etaChanged (ui (after rerouted))
   \<and> distance_delta (ui (after rerouted)) = Some 0
   \<and> duration_delta (ui (after rerouted)) = Some 0"
  by (simp add: run_defs route_facts route_differences)

subsection \<open>Failures\<close>

text \<open>
  Claim C9. When the response to a request in flight is a failure, the displayed result
  stays as it is, and the error text is the collaborator's detail when there is one (a
  non-empty text: \<open>||\<close> takes the fallback for an empty one) and the fallback text
  otherwise.
\<close>

theorem failure_keeps_result:
  assumes "step (Respond k (Failure detail)) s = Some s'"
  shows "result (ui s') = result (ui s)
         \<and> error (ui s') = Some (case detail of
                                   Some m \<Rightarrow> if m \<noteq> [] then m else ''Failed to get route suggestion''
                                 | None \<Rightarrow> ''Failed to get route suggestion'')"
  using step_Respond(2) [OF assms]
  by (simp add: handleSubmit_resume_def error_text_def)

theorem failure_keeps_result_witness:
  "step (Respond 0 (Failure (Some ''No route found''))) (after (displayed route_a @ [SubmitForm])) \<noteq> None
   \<and> result (ui (after (displayed route_a @ [SubmitForm]))) = Some route_a
   \<and> result (ui (after (displayed route_a @ [SubmitForm, Respond 0 (Failure (Some ''No route found''))])))
       = Some route_a
   \<and> error (ui (after (displayed route_a @ [SubmitForm, Respond 0 (Failure (Some ''No route found''))])))
       = Some ''No route found''"
proof -
  have st: "step (Respond 0 (Failure (Some ''No route found''))) (after (displayed route_a @ [SubmitForm]))
            = Some (after (displayed route_a @ [SubmitForm, Respond 0 (Failure (Some ''No route found''))]))"
    by (simp add: run_defs route_facts route_differences)
  have r: "result (ui (after (displayed route_a @ [SubmitForm]))) = Some route_a"
    by (simp add: run_defs route_facts route_differences)
  from failure_keeps_result [OF st] st r show ?thesis by simp
qed

text \<open>
  Claim C10. The part of \<open>handleSubmit\<close> before the request sets the loading flag and
  clears the error message and the active step index, and nothing else, also when the
  form calls it and the component renders afterwards. The arrival of a failure sets the
  error message and clears the loading flag, and nothing else: the displayed result, the
  previous result, the simulated event and the visibility of the notification are as
  before. After any response, success or failure, the loading flag is false.
\<close>

theorem handleSubmit_failure_frame:
  "ui (handleSubmit_begin c eventLocation s0)
     = (ui s0)\<lparr>loading := True, error := None, activeStepIndex := None\<rparr>
   \<and> (step SubmitForm s0 = Some s1 \<longrightarrow>
        ui s1 = (ui s0)\<lparr>loading := True, error := None, activeStepIndex := None\<rparr>)
   \<and> (step (Respond k (Failure detail)) s = Some s' \<longrightarrow>
        ui s' = (ui s)\<lparr>error := Some (error_text detail), loading := False\<rparr>)
   \<and> (step (Respond k r) s = Some s'' \<longrightarrow> \<not> loading (ui s''))"
proof (intro conjI impI)
  show "ui (handleSubmit_begin c eventLocation s0)
     = (ui s0)\<lparr>loading := True, error := None, activeStepIndex := None\<rparr>"
    by (simp add: handleSubmit_begin_def)
next
  assume "step SubmitForm s0 = Some s1"
  then show "ui s1 = (ui s0)\<lparr>loading := True, error := None, activeStepIndex := None\<rparr>"
    by (rule step_SubmitForm)
next
  assume "step (Respond k (Failure detail)) s = Some s'"
  from step_Respond(2) [OF this]
  show "ui s' = (ui s)\<lparr>error := Some (error_text detail), loading := False\<rparr>"
    by (simp add: handleSubmit_resume_def)
next
  assume "step (Respond k r) s = Some s''"
  from step_Respond(2) [OF this]
  show "\<not> loading (ui s'')"
    by (auto simp: handleSubmit_resume_def reroute_flags_def Let_def
          split: response.splits option.splits)
qed

theorem handleSubmit_failure_frame_witness:
  "step SubmitForm (after (displayed route_a)) = Some (after (displayed route_a @ [SubmitForm]))
   \<and> step (Respond 0 (Failure None)) (after (displayed route_a @ [SubmitForm]))
       = Some (after (displayed route_a @ [SubmitForm, Respond 0 (Failure None)]))
   \<and> ui (after (displayed route_a @ [SubmitForm]))
       = (ui (after (displayed route_a)))\<lparr>loading := True, error := None, activeStepIndex := None\<rparr>
   \<and> ui (after (displayed route_a @ [SubmitForm, Respond 0 (Failure None)]))
       = (ui (after (displayed route_a @ [SubmitForm])))
           \<lparr>error := Some ''Failed to get route suggestion'', loading := False\<rparr>
   \<and> \<not> loading (ui (after (displayed route_a @ [SubmitForm, Respond 0 (Failure None)])))"
proof -
  have a: "step SubmitForm (after (displayed route_a))
           = Some (after (displayed route_a @ [SubmitForm]))"
    by (simp add: run_defs route_facts route_differences)
  have b: "step (Respond 0 (Failure None)) (after (displayed route_a @ [SubmitForm]))
           = Some (after (displayed route_a @ [SubmitForm, Respond 0 (Failure None)]))"
    by (simp add: run_defs route_facts route_differences)
  from handleSubmit_failure_frame
         [of "ui (after (displayed route_a))" None "after (displayed route_a)"
             "after (displayed route_a @ [SubmitForm])" 0 None
             "after (displayed route_a @ [SubmitForm])"
             "after (displayed route_a @ [SubmitForm, Respond 0 (Failure None)])"
             "Failure None"
             "after (displayed route_a @ [SubmitForm, Respond 0 (Failure None)])"]
       a b
  show ?thesis by (simp add: error_text_def)
qed

subsection \<open>Reroute detection\<close>




subsection \<open>The delta flags\<close>

text \<open>
  Claim C7, as the code has it. When a reroute is applied, \<open>etaChanged\<close> (and likewise
  \<open>distanceChanged\<close>) is set to true if the durations (the distances) of the two results
  differ, and is left as it was otherwise. Each setting arms a timer of its own, due 3000
  ms later. A timer runs when the clock reads its due time; it is then removed and sets
  its own flag to false, leaving the other flags and all other timers alone. No other
  action removes a timer: the timers are never cancelled.
\<close>

theorem delta_flags_and_timers:
  "(step (Respond k (Success d t)) s1 = Some s1' \<and> seen_previousResult (inflight s1 ! k) = Some p
      \<and> geometry p \<noteq> geometry d \<longrightarrow>
      etaChanged (ui s1') = (etaChanged (ui s1) \<or> duration_minutes p \<noteq> duration_minutes d)
      \<and> distanceChanged (ui s1') = (distanceChanged (ui s1) \<or> distance_km p \<noteq> distance_km d)
      \<and> reset_timers s1' = reset_timers s1
           @ (if duration_minutes p \<noteq> duration_minutes d then [(now s1 + 3000, EtaChanged)] else [])
           @ (if distance_km p \<noteq> distance_km d then [(now s1 + 3000, DistanceChanged)] else [])
           @ [(now s1 + 3000, IsRerouting)])
   \<and> (exec as initial = Some s2 \<and> step (ResetTimeout i) s2 = Some s2' \<longrightarrow>
        fst (reset_timers s2 ! i) = now s2
        \<and> reset_timers s2' = delete_at i (reset_timers s2)
        \<and> ui s2' = (case snd (reset_timers s2 ! i) of
                       EtaChanged \<Rightarrow> (ui s2)\<lparr>etaChanged := False\<rparr>
                     | DistanceChanged \<Rightarrow> (ui s2)\<lparr>distanceChanged := False\<rparr>
                     | IsRerouting \<Rightarrow> (ui s2)\<lparr>isRerouting := False\<rparr>))
   \<and> (step a s3 = Some s3' \<and> \<not> is_reset a \<longrightarrow>
        take (length (reset_timers s3)) (reset_timers s3') = reset_timers s3)"
proof -
  have A: "etaChanged (ui s1') = (etaChanged (ui s1) \<or> duration_minutes p \<noteq> duration_minutes d)
      \<and> distanceChanged (ui s1') = (distanceChanged (ui s1) \<or> distance_km p \<noteq> distance_km d)
      \<and> reset_timers s1' = reset_timers s1
           @ (if duration_minutes p \<noteq> duration_minutes d then [(now s1 + 3000, EtaChanged)] else [])
           @ (if distance_km p \<noteq> distance_km d then [(now s1 + 3000, DistanceChanged)] else [])
           @ [(now s1 + 3000, IsRerouting)]"
    if st: "step (Respond k (Success d t)) s1 = Some s1'"
      and q: "seen_previousResult (inflight s1 ! k) = Some p" and g: "geometry p \<noteq> geometry d"
    using step_Respond(2,3) [OF st] resume_reroute [OF q, of d t] g by simp
  have B: "fst (reset_timers s2 ! i) = now s2
        \<and> reset_timers s2' = delete_at i (reset_timers s2)
        \<and> ui s2' = (case snd (reset_timers s2 ! i) of
                       EtaChanged \<Rightarrow> (ui s2)\<lparr>etaChanged := False\<rparr>
                     | DistanceChanged \<Rightarrow> (ui s2)\<lparr>distanceChanged := False\<rparr>
                     | IsRerouting \<Rightarrow> (ui s2)\<lparr>isRerouting := False\<rparr>)"
    if ex: "exec as initial = Some s2" and st: "step (ResetTimeout i) s2 = Some s2'"
  proof -
    note r = step_ResetTimeout [OF st]
    from reachable_timers_ahead [OF ex] r(1)
    have "now s2 \<le> fst (reset_timers s2 ! i)"
      unfolding timers_ahead_iff by (metis nth_mem prod.collapse)
    with r(2) have due: "fst (reset_timers s2 ! i) = now s2" by simp
    from r(4) have "ui s2' = (case snd (reset_timers s2 ! i) of
                       EtaChanged \<Rightarrow> (ui s2)\<lparr>etaChanged := False\<rparr>
                     | DistanceChanged \<Rightarrow> (ui s2)\<lparr>distanceChanged := False\<rparr>
                     | IsRerouting \<Rightarrow> (ui s2)\<lparr>isRerouting := False\<rparr>)"
      by (simp add: reset_callback_def split: flag.splits)
    with due r(3) show ?thesis by simp
  qed
  have C: "take (length (reset_timers s3)) (reset_timers s3') = reset_timers s3"
    if "step a s3 = Some s3'" "\<not> is_reset a"
    using that by (rule step_keeps_reset_timers)
  from A B C show ?thesis by blast
qed

theorem delta_flags_and_timers_witness:
  "step (Respond 0 (Success route_detour ''10:00:09'')) (after (displayed route_a @ [SubmitForm]))
     = Some (after rerouted)
   \<and> seen_previousResult (inflight (after (displayed route_a @ [SubmitForm])) ! 0) = Some route_a
   \<and> geometry route_a \<noteq> geometry route_detour
   \<and> etaChanged (ui (after rerouted)) \<and> distanceChanged (ui (after rerouted))
   \<and> reset_timers (after rerouted)
       = [(5500, EtaChanged), (5500, DistanceChanged), (5500, IsRerouting)]
   \<and> exec (rerouted @ [Elapse 3000]) initial = Some (after (rerouted @ [Elapse 3000]))
   \<and> step (ResetTimeout 0) (after (rerouted @ [Elapse 3000]))
       = Some (after (rerouted @ [Elapse 3000, ResetTimeout 0]))
   \<and> now (after (rerouted @ [Elapse 3000])) = 5500
   \<and> \<not> etaChanged (ui (after (rerouted @ [Elapse 3000, ResetTimeout 0])))
   \<and> distanceChanged (ui (after (rerouted @ [Elapse 3000, ResetTimeout 0])))
   \<and> reset_timers (after (rerouted @ [Elapse 3000, ResetTimeout 0]))
       = [(5500, DistanceChanged), (5500, IsRerouting)]
   \<and> step (Elapse 3000) (after rerouted) = Some (after (rerouted @ [Elapse 3000]))
   \<and> \<not> is_reset (Elapse 3000)
   \<and> take 3 (reset_timers (after (rerouted @ [Elapse 3000]))) = reset_timers (after rerouted)"
proof -
  have a1: "step (Respond 0 (Success route_detour ''10:00:09''))
                 (after (displayed route_a @ [SubmitForm])) = Some (after rerouted)"
    by (simp add: run_defs route_facts route_differences)
  have a2: "seen_previousResult (inflight (after (displayed route_a @ [SubmitForm])) ! 0)
            = Some route_a"
    by (simp add: run_defs route_facts route_differences)
  have a3: "geometry route_a \<noteq> geometry route_detour"
    by (simp add: route_facts)
  have b1: "exec (rerouted @ [Elapse 3000]) initial = Some (after (rerouted @ [Elapse 3000]))"
    by (simp add: run_defs route_facts route_differences)
  have b2: "step (ResetTimeout 0) (after (rerouted @ [Elapse 3000]))
            = Some (after (rerouted @ [Elapse 3000, ResetTimeout 0]))"
    by (simp add: run_defs route_facts route_differences)
  have c1: "step (Elapse 3000) (after rerouted) = Some (after (rerouted @ [Elapse 3000]))"
    by (simp add: run_defs route_facts route_differences)
  have c2: "\<not> is_reset (Elapse 3000)" by simp
  have e: "now (after (displayed route_a @ [SubmitForm])) = 2500"
    "reset_timers (after (displayed route_a @ [SubmitForm])) = []"
    "\<not> etaChanged (ui (after (displayed route_a @ [SubmitForm])))"
    "\<not> distanceChanged (ui (after (displayed route_a @ [SubmitForm])))"
    "duration_minutes route_a \<noteq> duration_minutes route_detour"
    "distance_km route_a \<noteq> distance_km route_detour"
    "reset_timers (after (rerouted @ [Elapse 3000])) = reset_timers (after rerouted)"
    "distanceChanged (ui (after (rerouted @ [Elapse 3000])))"
    "now (after (rerouted @ [Elapse 3000])) = 5500"
    by (simp_all add: run_defs route_facts route_differences)
  from delta_flags_and_timers
         [of 0 route_detour "''10:00:09''" "after (displayed route_a @ [SubmitForm])"
             "after rerouted" route_a
             "rerouted @ [Elapse 3000]" "after (rerouted @ [Elapse 3000])" 0
             "after (rerouted @ [Elapse 3000, ResetTimeout 0])"
             "Elapse 3000" "after rerouted" "after (rerouted @ [Elapse 3000])"]
       a1 a2 a3 b1 b2 c1 c2 e
  show ?thesis by (simp add: delete_at_def)
qed

text \<open>
  Claim C7 as stated fails. A second reroute is applied one second after the first one,
  with the same duration and another distance. \<open>etaChanged\<close> is true right after it,
  although the duration delta is zero, because the first reroute set it. And
  \<open>distanceChanged\<close>, set again by the second reroute when the clock reads 3500, is
  false 2000 ms later, when the timer of the first reroute runs.
\<close>

theorem delta_flags_counterexample:
  "exec (rerouted_again @ [Respond 0 (Success route_shortcut ''10:00:10''), Elapse 2000,
                           ResetTimeout 1]) initial \<noteq> None
   \<and> seen_previousResult (inflight (after rerouted_again) ! 0) = Some route_detour
   \<and> geometry route_detour \<noteq> geometry route_shortcut
   \<and> duration_minutes route_detour = duration_minutes route_shortcut
   \<and> etaChanged (ui (after (rerouted_again @ [Respond 0 (Success route_shortcut ''10:00:10'')])))
   \<and> distance_km route_detour \<noteq> distance_km route_shortcut
   \<and> now (after (rerouted_again @ [Respond 0 (Success route_shortcut ''10:00:10'')])) = 3500
   \<and> distanceChanged (ui (after (rerouted_again @ [Respond 0 (Success route_shortcut ''10:00:10'')])))
   \<and> now (after (rerouted_again @ [Respond 0 (Success route_shortcut ''10:00:10''), Elapse 2000,
                                     ResetTimeout 1])) = 5500
   \<and> \<not> distanceChanged (ui (after (rerouted_again
          @ [Respond 0 (Success route_shortcut ''10:00:10''), Elapse 2000, ResetTimeout 1])))"
  by (simp add: run_defs route_facts route_differences)

subsection \<open>The one-shot simulation\<close>




subsection \<open>The notification\<close>

text \<open>
  Claim C2, as the code has it. The notification becomes visible exactly when the
  simulation timer runs and finds a location for its event: it is shown by the timer
  callback, before the recomputation request is posted, and no other action shows it, so
  a request that the user makes never does. The arrival of a response, where reroutes are
  detected, never changes its visibility, whatever the geometry of the new result.
\<close>

theorem notification_shown_by_simulation:
  "(step a s = Some s' \<and> \<not> showNotification (ui s) \<longrightarrow>
      showNotification (ui s') = event_placed a s)
   \<and> (step (Respond k r) s1 = Some s1' \<longrightarrow> showNotification (ui s1') = showNotification (ui s1))"
proof -
  have A: "showNotification (ui s') = event_placed a s"
    if st: "step a s = Some s'" and n: "\<not> showNotification (ui s)"
  proof (cases "event_placed a s")
    case True
    then have "\<not> is_edit a" by (cases a) auto
    from step_endpoints [OF st this] step_showNotification [OF st] True show ?thesis by simp
  next
    case False
    with step_showNotification [OF st] n show ?thesis by simp
  qed
  have B: "showNotification (ui s1') = showNotification (ui s1)"
    if st: "step (Respond k r) s1 = Some s1'"
    using step_showNotification [OF st] step_endpoints [OF st] by simp
  from A B show ?thesis by blast
qed

theorem notification_shown_by_simulation_witness:
  "step (SimulationTimeout 0 0) (after (displayed route_a @ [Elapse 10000])) = Some (after simulated)
   \<and> \<not> showNotification (ui (after (displayed route_a @ [Elapse 10000])))
   \<and> event_placed (SimulationTimeout 0 0) (after (displayed route_a @ [Elapse 10000]))
   \<and> showNotification (ui (after simulated))
   \<and> step (Respond 0 (Success route_detour ''10:00:20'')) (after simulated)
       = Some (after (simulated @ [Respond 0 (Success route_detour ''10:00:20'')]))
   \<and> showNotification (ui (after (simulated @ [Respond 0 (Success route_detour ''10:00:20'')])))"
proof -
  have a: "step (SimulationTimeout 0 0) (after (displayed route_a @ [Elapse 10000]))
           = Some (after simulated)"
    "\<not> showNotification (ui (after (displayed route_a @ [Elapse 10000])))"
    "event_placed (SimulationTimeout 0 0) (after (displayed route_a @ [Elapse 10000]))"
    by (simp_all add: run_defs route_facts route_differences)
  have b: "step (Respond 0 (Success route_detour ''10:00:20'')) (after simulated)
           = Some (after (simulated @ [Respond 0 (Success route_detour ''10:00:20'')]))"
    by (simp add: run_defs route_facts route_differences)
  from notification_shown_by_simulation
         [of "SimulationTimeout 0 0" "after (displayed route_a @ [Elapse 10000])" "after simulated"
             0 "Success route_detour ''10:00:20''" "after simulated"
             "after (simulated @ [Respond 0 (Success route_detour ''10:00:20'')])"]
       a b
  show ?thesis by simp
qed

text \<open>
  Claim C2 as stated fails. The notification is visible as soon as the simulation timer
  has run, while the recomputation request is still in flight. The response then brings
  the geometry of the previous result: no reroute is detected, and the notification
  stays visible.
\<close>

theorem notification_counterexample:
  "exec (simulated @ [Respond 0 (Success route_a ''10:00:20'')]) initial \<noteq> None
   \<and> showNotification (ui (after simulated))
   \<and> length (inflight (after simulated)) = 1
   \<and> seen_previousResult (inflight (after simulated) ! 0) = Some route_a
   \<and> showNotification (ui (after (simulated @ [Respond 0 (Success route_a ''10:00:20'')])))
   \<and> \<not> isRerouting (ui (after (simulated @ [Respond 0 (Success route_a ''10:00:20'')])))
   \<and> reset_timers (after (simulated @ [Respond 0 (Success route_a ''10:00:20'')])) = []"
  by (simp add: run_defs route_facts route_differences)

section \<open>Properties of the decoder\<close>

lemma terminators_drop:
  "index < length w \<Longrightarrow>
   terminators (drop index w) =
     (if terminator (w ! index) then 1 else 0) + terminators (drop (Suc index) w)"
  by (simp add: terminators_def Cons_nth_drop_Suc [symmetric])

lemma terminators_drop_ge: "length w \<le> index \<Longrightarrow> terminators (drop index w) = 0"
  by (simp add: terminators_def)

text \<open>
  While a terminator lies ahead, reading a value never looks past it: what follows the
  input does not matter, the read stops inside the input, and it uses up one
  terminator.
\<close>

lemma chunks_append:
  "0 < terminators (drop index w) \<Longrightarrow> chunks (w @ t) index sh r = chunks w index sh r"
proof (induction w index sh r rule: chunks.induct)
  case (1 w index sh r)
  have lt: "index < length w"
    using "1.prems" terminators_drop_ge [of w index] by (cases "index < length w") auto
  then have c: "charCodeAt w index = Some (int (w ! index))"
    and c': "charCodeAt (w @ t) index = Some (int (w ! index))"
    by (simp_all add: charCodeAt_def nth_append)
  show ?case
  proof (cases "terminator (w ! index)")
    case True
    then show ?thesis
      using c c'
      by (simp add: chunks.simps [of w index] chunks.simps [of "w @ t" index]
            terminator_def Let_def)
  next
    case False
    then have ge: "32 \<le> int (w ! index) - 63" by (simp add: terminator_def)
    have "0 < terminators (drop (index + 1) w)"
      using "1.prems" terminators_drop [OF lt] False by simp
    from "1.IH" [OF c refl refl ge this]
    show ?thesis
      using c c' ge
      by (simp add: chunks.simps [of w index] chunks.simps [of "w @ t" index] Let_def)
  qed
qed

lemma chunks_consumes:
  "0 < terminators (drop index w) \<Longrightarrow>
   snd (chunks w index sh r) \<le> length w \<and>
   terminators (drop (snd (chunks w index sh r)) w) = terminators (drop index w) - 1"
proof (induction w index sh r rule: chunks.induct)
  case (1 w index sh r)
  have lt: "index < length w"
    using "1.prems" terminators_drop_ge [of w index] by (cases "index < length w") auto
  then have c: "charCodeAt w index = Some (int (w ! index))"
    by (simp_all add: charCodeAt_def)
  show ?case
  proof (cases "terminator (w ! index)")
    case True
    then show ?thesis
      using c lt terminators_drop [OF lt]
      by (simp add: chunks.simps [of w index] terminator_def Let_def)
  next
    case False
    then have ge: "32 \<le> int (w ! index) - 63" by (simp add: terminator_def)
    have eq: "terminators (drop (Suc index) w) = terminators (drop index w)"
      using terminators_drop [OF lt] False by simp
    with "1.prems" have "0 < terminators (drop (index + 1) w)" by simp
    from "1.IH" [OF c refl refl ge this]
    show ?thesis
      using c ge eq by (simp add: chunks.simps [of w index] Let_def)
  qed
qed

text \<open>With no terminator ahead, the read runs past the end of the input.\<close>

lemma chunks_overruns:
  "terminators (drop index w) = 0 \<Longrightarrow> length w < snd (chunks w index sh r)"
proof (induction w index sh r rule: chunks.induct)
  case (1 w index sh r)
  show ?case
  proof (cases "index < length w")
    case False
    then show ?thesis
      by (simp add: chunks.simps [of w index] charCodeAt_def)
  next
    case lt: True
    then have c: "charCodeAt w index = Some (int (w ! index))"
      by (simp_all add: charCodeAt_def)
    from "1.prems" terminators_drop [OF lt]
    have nt: "\<not> terminator (w ! index)" and z: "terminators (drop (index + 1) w) = 0"
      by (auto split: if_splits)
    from nt have ge: "32 \<le> int (w ! index) - 63" by (simp add: terminator_def)
    from "1.IH" [OF c refl refl ge z]
    show ?thesis
      using c ge by (simp add: chunks.simps [of w index] Let_def)
  qed
qed

lemma terminators_last:
  assumes "index < length w" "terminator (last w)"
  shows "0 < terminators (drop index w)"
proof -
  from assms(1) have ne: "drop index w \<noteq> []" by simp
  then have "last (drop index w) \<in> set (drop index w)" by (rule last_in_set)
  moreover have "last (drop index w) = last w" using assms(1) by simp
  ultimately have "last w \<in> set (filter terminator (drop index w))"
    using assms(2) by simp
  then show ?thesis
    unfolding terminators_def by (metis length_pos_if_in_set)
qed

lemma decode_loop_done:
  "length w \<le> index \<Longrightarrow> decode_loop w f index la lo pts = pts"
  by (simp add: decode_loop.simps [of w f index])

lemma decode_loop_step:
  "index < length w \<Longrightarrow> chunks w index 0 0 = (r1, i1) \<Longrightarrow> chunks w i1 0 0 = (r2, i2) \<Longrightarrow>
   decode_loop w f index la lo pts =
     decode_loop w f i2 (la + unzigzag r1) (lo + unzigzag r2)
       (pts @ [(real_of_int (la + unzigzag r1) / f, real_of_int (lo + unzigzag r2) / f)])"
  by (simp add: decode_loop.simps [of w f index] Let_def)

text \<open>
  At the start of a dangling tail the loop runs exactly once more: both reads together
  pass the end of the input, and one coordinate is pushed.
\<close>

lemma decode_loop_tail:
  assumes "dangling t"
  shows "\<exists>p. decode_loop (w @ t) f (length w) la lo pts = pts @ [p]"
proof -
  let ?e = "w @ t"
  from assms have lt: "length w < length ?e" and few: "terminators t < 2"
    by (simp_all add: dangling_def)
  obtain r1 i1 where c1: "chunks ?e (length w) 0 0 = (r1, i1)"
    by (cases "chunks ?e (length w) 0 0")
  obtain r2 i2 where c2: "chunks ?e i1 0 0 = (r2, i2)"
    by (cases "chunks ?e i1 0 0")
  have t0: "terminators (drop (length w) ?e) = terminators t" by simp
  have "length ?e < i2"
  proof (cases "terminators t = 0")
    case True
    with chunks_overruns [of "length w" ?e 0 0] t0 c1 have "length ?e < i1" by simp
    with chunks_advances [OF c2] show ?thesis by simp
  next
    case False
    with few have one: "terminators (drop (length w) ?e) = 1" using t0 by simp
    with chunks_consumes [of "length w" ?e 0 0] c1
    have "terminators (drop i1 ?e) = 0" by simp
    with chunks_overruns [of i1 ?e 0 0] c2 show ?thesis by simp
  qed
  then have "decode_loop ?e f i2 (la + unzigzag r1) (lo + unzigzag r2)
       (pts @ [(real_of_int (la + unzigzag r1) / f, real_of_int (lo + unzigzag r2) / f)])
     = pts @ [(real_of_int (la + unzigzag r1) / f, real_of_int (lo + unzigzag r2) / f)]"
    by (simp add: decode_loop_done)
  with decode_loop_step [OF lt c1 c2] show ?thesis by metis
qed

lemma decode_loop_truncated:
  assumes "dangling t"
  shows "index \<le> length w \<Longrightarrow> even (terminators (drop index w)) \<Longrightarrow>
         index = length w \<or> terminator (last w) \<Longrightarrow>
         \<exists>p. decode_loop (w @ t) f index la lo pts = decode_loop w f index la lo pts @ [p]"
proof (induction w f index la lo pts rule: decode_loop.induct)
  case (1 w f index la lo pts)
  show ?case
  proof (cases "index < length w")
    case False
    with "1.prems" have "index = length w" by simp
    then show ?thesis
      using decode_loop_tail [OF assms, of w f la lo pts] by (simp add: decode_loop_done)
  next
    case lt: True
    with "1.prems" have tl: "terminator (last w)" by simp
    obtain r1 i1 where c1: "chunks w index 0 0 = (r1, i1)" by (cases "chunks w index 0 0")
    obtain r2 i2 where c2: "chunks w i1 0 0 = (r2, i2)" by (cases "chunks w i1 0 0")
    have p0: "0 < terminators (drop index w)" by (rule terminators_last [OF lt tl])
    from chunks_consumes [OF p0, of 0 0] c1
    have i1: "i1 \<le> length w" and t1: "terminators (drop i1 w) = terminators (drop index w) - 1"
      by simp_all
    from p0 t1 "1.prems"(2) have p1: "0 < terminators (drop i1 w)"
      by (cases "terminators (drop index w)") (auto intro: odd_pos)
    from chunks_consumes [OF p1, of 0 0] c2
    have i2: "i2 \<le> length w" and t2: "terminators (drop i2 w) = terminators (drop i1 w) - 1"
      by simp_all
    have ev: "even (terminators (drop i2 w))"
      using "1.prems"(2) p0 p1 t1 t2 by (cases "terminators (drop index w)") auto
    have a1: "chunks (w @ t) index 0 0 = (r1, i1)" using chunks_append [OF p0] c1 by simp
    have a2: "chunks (w @ t) i1 0 0 = (r2, i2)" using chunks_append [OF p1] c2 by simp
    have "\<exists>p. decode_loop (w @ t) f i2 (la + unzigzag r1) (lo + unzigzag r2)
                 (pts @ [(real_of_int (la + unzigzag r1) / f, real_of_int (lo + unzigzag r2) / f)])
             = decode_loop w f i2 (la + unzigzag r1) (lo + unzigzag r2)
                 (pts @ [(real_of_int (la + unzigzag r1) / f, real_of_int (lo + unzigzag r2) / f)])
               @ [p]"
      using "1.IH" [OF lt c1 [symmetric] refl c2 [symmetric] refl i2 ev] tl by simp
    moreover have "index < length (w @ t)" using lt by simp
    ultimately show ?thesis
      using decode_loop_step [OF lt c1 c2] decode_loop_step [OF _ a1 a2] by simp
  qed
qed

text \<open>On a well-formed input every two values give one coordinate.\<close>

lemma decode_loop_count:
  "index \<le> length w \<Longrightarrow> even (terminators (drop index w)) \<Longrightarrow>
   index = length w \<or> terminator (last w) \<Longrightarrow>
   length (decode_loop w f index la lo pts) = length pts + terminators (drop index w) div 2"
proof (induction w f index la lo pts rule: decode_loop.induct)
  case (1 w f index la lo pts)
  show ?case
  proof (cases "index < length w")
    case False
    with "1.prems" have "index = length w" by simp
    then show ?thesis by (simp add: decode_loop_done terminators_def)
  next
    case lt: True
    with "1.prems" have tl: "terminator (last w)" by simp
    obtain r1 i1 where c1: "chunks w index 0 0 = (r1, i1)" by (cases "chunks w index 0 0")
    obtain r2 i2 where c2: "chunks w i1 0 0 = (r2, i2)" by (cases "chunks w i1 0 0")
    have p0: "0 < terminators (drop index w)" by (rule terminators_last [OF lt tl])
    from chunks_consumes [OF p0, of 0 0] c1
    have i1: "i1 \<le> length w" and t1: "terminators (drop i1 w) = terminators (drop index w) - 1"
      by simp_all
    from p0 t1 "1.prems"(2) have p1: "0 < terminators (drop i1 w)"
      by (cases "terminators (drop index w)") (auto intro: odd_pos)
    from chunks_consumes [OF p1, of 0 0] c2
    have i2: "i2 \<le> length w" and t2: "terminators (drop i2 w) = terminators (drop i1 w) - 1"
      by simp_all
    have ev: "even (terminators (drop i2 w))"
      using "1.prems"(2) p0 p1 t1 t2 by (cases "terminators (drop index w)") auto
    have two: "terminators (drop index w) = terminators (drop i2 w) + 2"
      using p0 p1 t1 t2 by simp
    have "length (decode_loop w f i2 (la + unzigzag r1) (lo + unzigzag r2)
                 (pts @ [(real_of_int (la + unzigzag r1) / f, real_of_int (lo + unzigzag r2) / f)]))
          = length pts + 1 + terminators (drop i2 w) div 2"
      using "1.IH" [OF lt c1 [symmetric] refl c2 [symmetric] refl i2 ev] tl by simp
    then show ?thesis
      using decode_loop_step [OF lt c1 c2] two by simp
  qed
qed

lemma decodePolyline_loop: "decodePolyline w n = decode_loop w (10 ^ n) 0 0 0 []"
  by (simp add: decodePolyline_def decode_loop_done)

text \<open>
  A read that starts inside the input ends at most one position past its end.
\<close>

lemma chunks_bound:
  "index \<le> length w \<Longrightarrow> snd (chunks w index sh r) \<le> length w + 1"
proof (induction w index sh r rule: chunks.induct)
  case (1 w index sh r)
  show ?case
  proof (cases "index < length w")
    case False
    with "1.prems" show ?thesis
      by (subst chunks.simps) (simp add: charCodeAt_def)
  next
    case lt: True
    then have c: "charCodeAt w index = Some (int (w ! index))"
      by (simp add: charCodeAt_def)
    show ?thesis
    proof (cases "32 \<le> int (w ! index) - 63")
      case True
      from "1.IH" [OF c refl refl True] lt
      show ?thesis using c True by (simp add: chunks.simps [of w index] Let_def)
    next
      case False
      then show ?thesis using c lt by (simp add: chunks.simps [of w index] Let_def)
    qed
  qed
qed

text \<open>
  A read past the end of the input gives what the character \<open>?\<close> (code 63, a group of
  zero without continuation bit) gives at that position.
\<close>

lemma chunks_padded:
  "0 < k \<Longrightarrow> index < length w + k \<Longrightarrow>
   chunks (w @ replicate k 63) index sh r = chunks w index sh r"
proof (induction w index sh r rule: chunks.induct)
  case (1 w index sh r)
  show ?case
  proof (cases "index < length w")
    case False
    with "1.prems" have c: "charCodeAt w index = None"
      and c': "charCodeAt (w @ replicate k 63) index = Some 63"
      by (simp_all add: charCodeAt_def nth_append)
    show ?thesis
      using c c'
      by (simp add: chunks.simps [of w index] chunks.simps [of "w @ replicate k 63" index])
  next
    case lt: True
    then have c: "charCodeAt w index = Some (int (w ! index))"
      and c': "charCodeAt (w @ replicate k 63) index = Some (int (w ! index))"
      by (simp_all add: charCodeAt_def nth_append)
    show ?thesis
    proof (cases "32 \<le> int (w ! index) - 63")
      case True
      from lt "1.prems" have "index + 1 < length w + k" by simp
      from "1.IH" [OF c refl refl True "1.prems"(1) this]
      show ?thesis
        using c c' True
        by (simp add: chunks.simps [of w index] chunks.simps [of "w @ replicate k 63" index]
              Let_def)
    next
      case False
      then show ?thesis
        using c c'
        by (simp add: chunks.simps [of w index] chunks.simps [of "w @ replicate k 63" index]
              Let_def)
    qed
  qed
qed

lemma decode_loop_tail_padded:
  assumes "dangling t"
  shows "decode_loop (w @ t) f (length w) la lo pts
         = decode_loop ((w @ t) @ replicate (2 - terminators t) 63) f (length w) la lo pts"
proof -
  let ?e = "w @ t"
  let ?k = "2 - terminators t"
  let ?e' = "?e @ replicate ?k 63"
  from assms have lt: "length w < length ?e" and few: "terminators t < 2"
    by (simp_all add: dangling_def)
  then have k: "0 < ?k" by simp
  obtain r1 i1 where c1: "chunks ?e (length w) 0 0 = (r1, i1)"
    by (cases "chunks ?e (length w) 0 0")
  obtain r2 i2 where c2: "chunks ?e i1 0 0 = (r2, i2)"
    by (cases "chunks ?e i1 0 0")
  have t0: "terminators (drop (length w) ?e) = terminators t" by simp
  have b1: "i1 \<le> length ?e + 1"
    using chunks_bound [of "length w" ?e 0 0] c1 by simp
  have i1: "i1 < length ?e + ?k" and i2: "length ?e + ?k \<le> i2"
  proof -
    show "i1 < length ?e + ?k"
    proof (cases "terminators t = 0")
      case True
      with b1 show ?thesis by simp
    next
      case False
      with few have "terminators (drop (length w) ?e) = 1" using t0 by simp
      with chunks_consumes [of "length w" ?e 0 0] c1 have "i1 \<le> length ?e" by simp
      with k show ?thesis by simp
    qed
    show "length ?e + ?k \<le> i2"
    proof (cases "terminators t = 0")
      case True
      with chunks_overruns [of "length w" ?e 0 0] t0 c1 have "length ?e < i1" by simp
      with chunks_advances [OF c2] True show ?thesis by simp
    next
      case False
      with few have one: "terminators (drop (length w) ?e) = 1" using t0 by simp
      with chunks_consumes [of "length w" ?e 0 0] c1
      have "terminators (drop i1 ?e) = 0" by simp
      with chunks_overruns [of i1 ?e 0 0] c2 False few show ?thesis by simp
    qed
  qed
  have a1: "chunks ?e' (length w) 0 0 = (r1, i1)"
    using chunks_padded [OF k, of "length w" ?e 0 0] lt c1 by simp
  have a2: "chunks ?e' i1 0 0 = (r2, i2)"
    using chunks_padded [OF k i1, of 0 0] c2 by simp
  have lt': "length w < length ?e'" using lt by simp
  have d: "length ?e \<le> i2" and d': "length ?e' \<le> i2" using i2 by simp_all
  show ?thesis
    unfolding decode_loop_step [OF lt c1 c2] decode_loop_step [OF lt' a1 a2]
      decode_loop_done [OF d] decode_loop_done [OF d'] ..
qed

lemma decode_loop_padded:
  assumes "dangling t"
  shows "index \<le> length w \<Longrightarrow> even (terminators (drop index w)) \<Longrightarrow>
         index = length w \<or> terminator (last w) \<Longrightarrow>
         decode_loop (w @ t) f index la lo pts
         = decode_loop (w @ t @ replicate (2 - terminators t) 63) f index la lo pts"
proof (induction w f index la lo pts rule: decode_loop.induct)
  case (1 w f index la lo pts)
  let ?x = "t @ replicate (2 - terminators t) 63"
  show ?case
  proof (cases "index < length w")
    case False
    with "1.prems" have "index = length w" by simp
    then show ?thesis
      using decode_loop_tail_padded [OF assms, of w f la lo pts] by simp
  next
    case lt: True
    with "1.prems" have tl: "terminator (last w)" by simp
    obtain r1 i1 where c1: "chunks w index 0 0 = (r1, i1)" by (cases "chunks w index 0 0")
    obtain r2 i2 where c2: "chunks w i1 0 0 = (r2, i2)" by (cases "chunks w i1 0 0")
    have p0: "0 < terminators (drop index w)" by (rule terminators_last [OF lt tl])
    from chunks_consumes [OF p0, of 0 0] c1
    have i1: "i1 \<le> length w" and t1: "terminators (drop i1 w) = terminators (drop index w) - 1"
      by simp_all
    from p0 t1 "1.prems"(2) have p1: "0 < terminators (drop i1 w)"
      by (cases "terminators (drop index w)") (auto intro: odd_pos)
    from chunks_consumes [OF p1, of 0 0] c2
    have i2: "i2 \<le> length w" and t2: "terminators (drop i2 w) = terminators (drop i1 w) - 1"
      by simp_all
    have ev: "even (terminators (drop i2 w))"
      using "1.prems"(2) p0 p1 t1 t2 by (cases "terminators (drop index w)") auto
    have a1: "chunks (w @ t) index 0 0 = (r1, i1)" using chunks_append [OF p0] c1 by simp
    have a2: "chunks (w @ t) i1 0 0 = (r2, i2)" using chunks_append [OF p1] c2 by simp
    have b1: "chunks (w @ ?x) index 0 0 = (r1, i1)" using chunks_append [OF p0] c1 by simp
    have b2: "chunks (w @ ?x) i1 0 0 = (r2, i2)" using chunks_append [OF p1] c2 by simp
    have l1: "index < length (w @ t)" and l2: "index < length (w @ ?x)" using lt by simp_all
    from "1.IH" [OF lt c1 [symmetric] refl c2 [symmetric] refl i2 ev] tl
    show ?thesis
      unfolding decode_loop_step [OF l1 a1 a2] decode_loop_step [OF l2 b1 b2] by simp
  qed
qed

lemma padded_well_formed:
  assumes "well_formed w" "dangling t"
  shows "well_formed (w @ t @ replicate (2 - terminators t) 63)"
proof -
  from assms(2) have few: "terminators t < 2" by (simp add: dangling_def)
  have "filter terminator (replicate k 63) = replicate k 63" for k
    by (simp add: terminator_def)
  then have "terminators (w @ t @ replicate (2 - terminators t) 63) = terminators w + 2"
    using few by (simp add: terminators_def)
  moreover have "terminator (last (w @ t @ replicate (2 - terminators t) 63))"
    using few by (simp add: terminator_def)
  ultimately show ?thesis using assms(1) by (simp add: well_formed_def)
qed

text \<open>
  Claim C5, as the code has it. The decoder is a total function, so it returns a
  sequence for every input and never throws, and the empty input gives the empty
  sequence. On a well-formed input it returns one coordinate for every pair of values.
  When a well-formed input is followed by a dangling tail, it returns the coordinates of
  the well-formed part followed by exactly one more coordinate, so the unfinished pair
  is pushed as well. A read past the end of the input sees a group of zero without
  continuation bit: the result is what the decoder returns for the input with the
  character \<open>?\<close> (that group) appended once for each value that the tail lacks to make
  a pair, which is a well-formed input.
\<close>

theorem decodePolyline_truncated_tail:
  "decodePolyline [] n = []
   \<and> (well_formed w \<longrightarrow> length (decodePolyline w n) = terminators w div 2)
   \<and> (well_formed w \<and> dangling t \<longrightarrow>
        (\<exists>p. decodePolyline (w @ t) n = decodePolyline w n @ [p])
        \<and> well_formed (w @ t @ replicate (2 - terminators t) 63)
        \<and> decodePolyline (w @ t) n
            = decodePolyline (w @ t @ replicate (2 - terminators t) 63) n)"
proof (intro conjI impI)
  show "decodePolyline [] n = []" by (simp add: decodePolyline_def)
next
  assume "well_formed w"
  then show "length (decodePolyline w n) = terminators w div 2"
    using decode_loop_count [of 0 w "10 ^ n" 0 0 "[]"]
    by (auto simp: well_formed_def decodePolyline_loop)
next
  assume "well_formed w \<and> dangling t"
  then show "\<exists>p. decodePolyline (w @ t) n = decodePolyline w n @ [p]"
    using decode_loop_truncated [of t 0 w "10 ^ n" 0 0 "[]"]
    by (auto simp: well_formed_def decodePolyline_loop)
next
  assume "well_formed w \<and> dangling t"
  then show "well_formed (w @ t @ replicate (2 - terminators t) 63)"
    by (simp add: padded_well_formed)
next
  assume "well_formed w \<and> dangling t"
  then show "decodePolyline (w @ t) n
             = decodePolyline (w @ t @ replicate (2 - terminators t) 63) n"
    using decode_loop_padded [of t 0 w "10 ^ n" 0 0 "[]"]
    by (auto simp: well_formed_def decodePolyline_loop)
qed

text \<open>
  Two instances. The first two coordinates of the sample string are followed by the
  latitude of the third without its longitude: the longitude of the second is repeated.
  The first coordinate of the sample string is followed by three groups of a latitude,
  all with continuation bit: they are read as a whole latitude.
\<close>

theorem decodePolyline_truncated_tail_witness:
  "well_formed (js ''_p~iF~ps|U_ulLnnqC'') \<and> dangling (js ''_mqN'')
   \<and> length (decodePolyline (js ''_p~iF~ps|U_ulLnnqC'') 5)
       = terminators (js ''_p~iF~ps|U_ulLnnqC'') div 2
   \<and> js ''_mqN'' @ replicate (2 - terminators (js ''_mqN'')) 63 = js ''_mqN?''
   \<and> decodePolyline (js ''_p~iF~ps|U_ulLnnqC'' @ js ''_mqN'') 5
       = decodePolyline (js ''_p~iF~ps|U_ulLnnqC'' @ js ''_mqN?'') 5
   \<and> decodePolyline (js ''_p~iF~ps|U_ulLnnqC'' @ js ''_mqN'') 5
       = decodePolyline (js ''_p~iF~ps|U_ulLnnqC'') 5 @ [(43.252, -120.95)]
   \<and> well_formed (js ''_p~iF~ps|U'') \<and> dangling (js ''_ul'')
   \<and> js ''_ul'' @ replicate (2 - terminators (js ''_ul'')) 63 = js ''_ul??''
   \<and> decodePolyline (js ''_p~iF~ps|U'' @ js ''_ul'') 5
       = decodePolyline (js ''_p~iF~ps|U'' @ js ''_ul??'') 5
   \<and> decodePolyline (js ''_p~iF~ps|U'' @ js ''_ul'') 5 = [(38.5, -120.2), (38.57008, -120.2)]"
proof -
  have c: "well_formed (js ''_p~iF~ps|U_ulLnnqC'')" "well_formed (js ''_p~iF~ps|U'')"
    by code_simp+
  have d: "dangling (js ''_mqN'')" "dangling (js ''_ul'')"
    by code_simp+
  have e: "js ''_mqN'' @ replicate (2 - terminators (js ''_mqN'')) 63 = js ''_mqN?''"
    "js ''_ul'' @ replicate (2 - terminators (js ''_ul'')) 63 = js ''_ul??''"
    by code_simp+
  have v: "decodePolyline (js ''_p~iF~ps|U_ulLnnqC'' @ js ''_mqN'') 5
       = decodePolyline (js ''_p~iF~ps|U_ulLnnqC'') 5 @ [(43.252, -120.95)]"
    "decodePolyline (js ''_p~iF~ps|U'' @ js ''_ul'') 5 = [(38.5, -120.2), (38.57008, -120.2)]"
    by code_simp+
  from c d decodePolyline_truncated_tail [of 5 "js ''_p~iF~ps|U_ulLnnqC''" "js ''_mqN''"]
  have "length (decodePolyline (js ''_p~iF~ps|U_ulLnnqC'') 5)
          = terminators (js ''_p~iF~ps|U_ulLnnqC'') div 2"
    and "decodePolyline (js ''_p~iF~ps|U_ulLnnqC'' @ js ''_mqN'') 5
       = decodePolyline (js ''_p~iF~ps|U_ulLnnqC'' @ js ''_mqN''
            @ replicate (2 - terminators (js ''_mqN'')) 63) 5"
    by blast+
  moreover
  from c d decodePolyline_truncated_tail [of 5 "js ''_p~iF~ps|U''" "js ''_ul''"]
  have "decodePolyline (js ''_p~iF~ps|U'' @ js ''_ul'') 5
       = decodePolyline (js ''_p~iF~ps|U'' @ js ''_ul''
            @ replicate (2 - terminators (js ''_ul'')) 63) 5"
    by blast
  ultimately show ?thesis using c d e v by simp
qed

text \<open>
  Claim C5 as stated fails: the input \<open>_p~iF\<close> holds one latitude and no longitude, so
  no coordinate is fully resolved before the truncation, yet the decoder returns a
  coordinate, with longitude 0.
\<close>

theorem decodePolyline_partial_counterexample:
  "decodePolyline (js ''_p~iF'') 5 = [(38.5, 0)]"
  by code_simp

text \<open>
  Claim C6. The sample string decodes at precision 5 to exactly three coordinates. In
  the model the quotients are exact and equal the expected values; the quotients of the
  source are the nearest floating-point numbers, which lie well within \<open>0.001\<close> of them.
\<close>

theorem decodePolyline_sample:
  "decodePolyline (js ''_p~iF~ps|U_ulLnnqC_mqNvxq`@'') 5
     = [(38.5, -120.2), (40.7, -120.95), (43.252, -126.453)]"
  by code_simp

end
